theory Spec2Isabelle
  imports Main "HOL-Library.Word"
begin

section \<open>Device trust and request authentication of the FinPin serverless API\<close>

text \<open>
  The development embeds \<^verbatim>\<open>src/security.ts\<close> (class \<^verbatim>\<open>SecurityManager\<close>) and the
  handlers of \<^verbatim>\<open>src/handlers.ts\<close> that call it.

  Conventions of the embedding:
  \<^item> A JavaScript string is the list of its UTF-16 code units (\<open>16 word list\<close>); a
    \<^verbatim>\<open>Uint8Array\<close> is a list of bytes (\<open>8 word list\<close>).
  \<^item> A JavaScript number is an integer or \<^verbatim>\<open>NaN\<close>. All numbers the code computes with
    are epoch milliseconds and small counters, far below \<open>2^53\<close>, where double
    arithmetic is exact; rounding of larger values is not modelled.
  \<^item> An \<^verbatim>\<open>async\<close> function returns \<open>error + 'a\<close>: \<open>Inl e\<close> is a rejected promise
    (a thrown exception), \<open>Inr v\<close> a fulfilled one. A function that writes to a
    key-value namespace returns the environment after the call as well.
  \<^item> \<^verbatim>\<open>Date.now()\<close> is an argument \<open>now\<close> of each function (one reading per call:
    the Workers runtime does not advance the clock during synchronous execution).
  \<^item> WebCrypto (\<^verbatim>\<open>crypto.subtle\<close>) is not part of the repository: SHA-256 and
    HMAC-SHA256 (\<^verbatim>\<open>importKey\<close> followed by \<^verbatim>\<open>sign\<close>) are parameters, collected in
    the record \<open>platform\<close>; \<open>None\<close> is a call that throws.
\<close>

subsection \<open>Strings, bytes and numbers\<close>

type_synonym jsstring = "16 word list"

type_synonym byte = "8 word"

definition js :: "string \<Rightarrow> jsstring" where
  "js s = map (\<lambda>c. of_nat (of_char c)) s"

datatype number = Num int | NaN

fun times :: "number \<Rightarrow> number \<Rightarrow> number" where
  "times (Num a) (Num b) = Num (a * b)"
| "times _ _ = NaN"

fun minus_num :: "number \<Rightarrow> number \<Rightarrow> number" where
  "minus_num (Num a) (Num b) = Num (a - b)"
| "minus_num _ _ = NaN"

fun Math_abs :: "number \<Rightarrow> number" where
  "Math_abs (Num a) = Num \<bar>a\<bar>"
| "Math_abs NaN = NaN"

text \<open>\<^verbatim>\<open>a > b\<close> and \<^verbatim>\<open>a >= b\<close>: every comparison with \<^verbatim>\<open>NaN\<close> is false.\<close>

fun gt :: "number \<Rightarrow> number \<Rightarrow> bool" where
  "gt (Num a) (Num b) = (a > b)"
| "gt _ _ = False"

fun ge :: "number \<Rightarrow> number \<Rightarrow> bool" where
  "ge (Num a) (Num b) = (a \<ge> b)"
| "ge _ _ = False"

subsubsection \<open>\<^verbatim>\<open>parseInt(string)\<close> with the radix left out\<close>

definition isWhiteSpace :: "16 word \<Rightarrow> bool" where
  "isWhiteSpace c = (c \<in> {0x9, 0xA, 0xB, 0xC, 0xD, 0x20, 0xA0, 0x1680, 0x2028, 0x2029,
       0x202F, 0x205F, 0x3000, 0xFEFF} \<or> (0x2000 \<le> c \<and> c \<le> 0x200A))"

definition digitValue :: "16 word \<Rightarrow> int option" where
  "digitValue c =
     (if 0x30 \<le> c \<and> c \<le> 0x39 then Some (uint c - 0x30)
      else if 0x61 \<le> c \<and> c \<le> 0x7A then Some (uint c - 0x61 + 10)
      else if 0x41 \<le> c \<and> c \<le> 0x5A then Some (uint c - 0x41 + 10)
      else None)"

definition isDigit :: "int \<Rightarrow> 16 word \<Rightarrow> bool" where
  "isDigit radix c = (case digitValue c of None \<Rightarrow> False | Some d \<Rightarrow> d < radix)"

definition digitsValue :: "int \<Rightarrow> jsstring \<Rightarrow> int" where
  "digitsValue radix z = foldl (\<lambda>acc c. acc * radix + the (digitValue c)) 0 z"

definition parseInt :: "jsstring \<Rightarrow> number" where
  "parseInt inputString =
     (let s = dropWhile isWhiteSpace inputString;
          sign = (if s \<noteq> [] \<and> hd s = 0x2D then - 1 else 1 :: int);
          s = (if s \<noteq> [] \<and> (hd s = 0x2B \<or> hd s = 0x2D) then tl s else s);
          hex = (length s \<ge> 2 \<and> hd s = 0x30 \<and> (s ! 1 = 0x78 \<or> s ! 1 = 0x58));
          radix = (if hex then 16 else 10);
          s = (if hex then drop 2 s else s);
          z = takeWhile (isDigit radix) s
      in if z = [] then NaN else Num (sign * digitsValue radix z))"

subsubsection \<open>\<^verbatim>\<open>Number.prototype.toString()\<close> on integers\<close>

function digits :: "int \<Rightarrow> jsstring" where
  "digits n = (if n < 10 then [of_int (0x30 + n)] else digits (n div 10) @ [of_int (0x30 + n mod 10)])"
  by pat_completeness auto

termination
  by (relation "measure nat") auto

declare digits.simps [simp del]

definition toString :: "int \<Rightarrow> jsstring" where
  "toString n = (if n < 0 then 0x2D # digits (- n) else digits n)"

text \<open>The decimal digits, the characters of which \<open>toString\<close> builds its result.\<close>

definition decimal :: "16 word \<Rightarrow> bool" where
  "decimal c = (0x30 \<le> uint c \<and> uint c \<le> 0x39)"

subsubsection \<open>\<^verbatim>\<open>TextEncoder.encode\<close>: UTF-8, a lone surrogate becomes U+FFFD\<close>

definition isHigh :: "16 word \<Rightarrow> bool" where
  "isHigh c = (0xD800 \<le> c \<and> c \<le> 0xDBFF)"

definition isLow :: "16 word \<Rightarrow> bool" where
  "isLow c = (0xDC00 \<le> c \<and> c \<le> 0xDFFF)"

definition utf8 :: "int \<Rightarrow> byte list" where
  "utf8 cp =
     (if cp < 0x80 then [of_int cp]
      else if cp < 0x800 then [of_int (0xC0 + cp div 64), of_int (0x80 + cp mod 64)]
      else if cp < 0x10000 then
        [of_int (0xE0 + cp div 4096), of_int (0x80 + cp div 64 mod 64), of_int (0x80 + cp mod 64)]
      else
        [of_int (0xF0 + cp div 262144), of_int (0x80 + cp div 4096 mod 64),
         of_int (0x80 + cp div 64 mod 64), of_int (0x80 + cp mod 64)])"

fun encode :: "jsstring \<Rightarrow> byte list" where
  "encode [] = []"
| "encode [c] = (if isHigh c \<or> isLow c then utf8 0xFFFD else utf8 (uint c))"
| "encode (c # d # cs) =
     (if isHigh c \<and> isLow d
        then utf8 (0x10000 + (uint c - 0xD800) * 1024 + (uint d - 0xDC00)) @ encode cs
      else if isHigh c \<or> isLow c then utf8 0xFFFD @ encode (d # cs)
      else utf8 (uint c) @ encode (d # cs))"

text \<open>Strings of 7-bit characters: \<open>encode\<close> maps each of their code units to one byte.\<close>

definition ascii :: "jsstring \<Rightarrow> bool" where
  "ascii s = (\<forall>c\<in>set s. c < 0x80)"

subsubsection \<open>\<^verbatim>\<open>btoa\<close> and the hexadecimal rendering of a byte\<close>

text \<open>The base64 alphabet: \<^verbatim>\<open>A-Z\<close>, \<^verbatim>\<open>a-z\<close>, \<^verbatim>\<open>0-9\<close>, \<^verbatim>\<open>+\<close>, \<^verbatim>\<open>/\<close>.\<close>

definition b64char :: "int \<Rightarrow> 16 word" where
  "b64char n =
     (if n < 26 then of_int (0x41 + n)
      else if n < 52 then of_int (0x61 + (n - 26))
      else if n < 62 then of_int (0x30 + (n - 52))
      else if n = 62 then 0x2B else 0x2F)"

fun base64 :: "int list \<Rightarrow> jsstring" where
  "base64 [] = []"
| "base64 [a] = [b64char (a div 4), b64char (a mod 4 * 16), 0x3D, 0x3D]"
| "base64 [a, b] =
     [b64char (a div 4), b64char (a mod 4 * 16 + b div 16), b64char (b mod 16 * 4), 0x3D]"
| "base64 (a # b # c # rest) =
     [b64char (a div 4), b64char (a mod 4 * 16 + b div 16),
      b64char (b mod 16 * 4 + c div 64), b64char (c mod 64)] @ base64 rest"

datatype error =
    AuthenticationError jsstring
  | RateLimitError jsstring
  | ValidationError jsstring
  | ZodError
  | InvalidCharacterError
  | PlatformError string

text \<open>\<^verbatim>\<open>btoa\<close> throws on a code unit above \<open>0xFF\<close>.\<close>

definition btoa :: "jsstring \<Rightarrow> error + jsstring" where
  "btoa s = (if \<forall>c \<in> set s. c \<le> 0xFF then Inr (base64 (map uint s)) else Inl InvalidCharacterError)"

text \<open>
  \<^verbatim>\<open>atob\<close> on padded base64 text, the inverse of \<^verbatim>\<open>btoa\<close>; the result is the list of
  the byte values.
\<close>

definition b64val :: "16 word \<Rightarrow> int option" where
  "b64val c =
     (if 0x41 \<le> c \<and> c \<le> 0x5A then Some (uint c - 0x41)
      else if 0x61 \<le> c \<and> c \<le> 0x7A then Some (uint c - 0x61 + 26)
      else if 0x30 \<le> c \<and> c \<le> 0x39 then Some (uint c - 0x30 + 52)
      else if c = 0x2B then Some 62
      else if c = 0x2F then Some 63
      else None)"

fun atob :: "jsstring \<Rightarrow> int list option" where
  "atob [] = Some []"
| "atob (a # b # c # d # rest) =
     (case (b64val a, b64val b) of
        (Some x, Some y) \<Rightarrow>
          if c = 0x3D \<and> d = 0x3D \<and> rest = [] then Some [x * 4 + y div 16]
          else (case b64val c of
                  None \<Rightarrow> None
                | Some z \<Rightarrow>
                    if d = 0x3D \<and> rest = [] then Some [x * 4 + y div 16, y mod 16 * 16 + z div 4]
                    else (case b64val d of
                            None \<Rightarrow> None
                          | Some w \<Rightarrow>
                              (case atob rest of
                                 None \<Rightarrow> None
                               | Some bytes \<Rightarrow>
                                   Some ([x * 4 + y div 16, y mod 16 * 16 + z div 4,
                                          z mod 4 * 64 + w] @ bytes))))
      | _ \<Rightarrow> None)"
| "atob _ = None"

definition fromCharCode :: "byte \<Rightarrow> 16 word" where
  "fromCharCode b = ucast b"

definition hexDigit :: "int \<Rightarrow> 16 word" where
  "hexDigit n = (if n < 10 then of_int (0x30 + n) else of_int (0x61 + (n - 10)))"

text \<open>\<^verbatim>\<open>b.toString(16).padStart(2, '0')\<close> for a byte \<open>b\<close>.\<close>

definition toHex2 :: "byte \<Rightarrow> jsstring" where
  "toHex2 b = [hexDigit (uint b div 16), hexDigit (uint b mod 16)]"

text \<open>\<^verbatim>\<open>Array.from(new Uint8Array(buffer))\<close> for a 32-byte digest.\<close>

definition Uint8Array :: "256 word \<Rightarrow> byte list" where
  "Uint8Array w = map (\<lambda>i. ucast (drop_bit (8 * (31 - i)) w)) [0..<32]"

subsection \<open>The environment: WebCrypto, configuration and key-value namespaces\<close>

record platform =
  subtle_digest :: "byte list \<Rightarrow> 256 word option"
  subtle_sign :: "byte list \<Rightarrow> byte list \<Rightarrow> 256 word option"

text \<open>
  Two inputs on which a digest or an HMAC does not collide. SHA-256 and HMAC-SHA256
  are not injective; theorems that depend on their collision resistance assume it
  for the two inputs at hand.
\<close>

definition no_collision :: "('a \<Rightarrow> 'b) \<Rightarrow> 'a \<Rightarrow> 'a \<Rightarrow> bool" where
  "no_collision f x y = (x \<noteq> y \<longrightarrow> f x \<noteq> f y)"

datatype isotime = ISOString int

record device_info_t =
  model :: jsstring
  os_version :: jsstring
  app_version :: jsstring
  platform :: jsstring

record DeviceInfo =
  device_id :: jsstring
  key_seed :: jsstring
  registered_at :: isotime
  last_seen :: isotime
  request_count :: int
  device_info :: device_info_t

text \<open>
  A namespace maps a key to the stored value and the \<^verbatim>\<open>expirationTtl\<close> it was written
  with. The stored JSON text is identified with the value it encodes
  (\<^verbatim>\<open>JSON.parse(JSON.stringify(v))\<close> is \<open>v\<close> for the records and arrays written here).
  A namespace that is not \<open>online\<close> rejects every call.
\<close>

record 'v kv =
  entries :: "jsstring \<rightharpoonup> 'v \<times> nat"
  online :: bool

definition kv_get :: "'v kv \<Rightarrow> jsstring \<Rightarrow> error + 'v option" where
  "kv_get ns key =
     (if online ns then Inr (map_option fst (entries ns key))
      else Inl (PlatformError ''KV GET failed''))"

definition kv_put :: "'v kv \<Rightarrow> jsstring \<Rightarrow> 'v \<Rightarrow> nat \<Rightarrow> (error + unit) \<times> 'v kv" where
  "kv_put ns key v ttl =
     (if online ns then (Inr (), ns\<lparr>entries := (entries ns)(key \<mapsto> (v, ttl))\<rparr>)
      else (Inl (PlatformError ''KV PUT failed''), ns))"

record env =
  MASTER_KEY_SEED :: jsstring
  JWT_SECRET :: jsstring
  ENVIRONMENT :: jsstring
  API_VERSION :: jsstring
  RATE_LIMIT_PER_MINUTE :: jsstring
  SIGNATURE_VALIDITY_MINUTES :: jsstring
  CACHE :: "DeviceInfo kv"
  RATE_LIMIT :: "int list kv"

subsection \<open>\<^verbatim>\<open>SecurityManager\<close>\<close>

definition generateHMAC :: "platform \<Rightarrow> jsstring \<Rightarrow> jsstring \<Rightarrow> error + jsstring" where
  "generateHMAC P key message =
     (case subtle_sign P (encode key) (encode message) of
        None \<Rightarrow> Inl (PlatformError ''crypto.subtle'')
      | Some signature \<Rightarrow> btoa (map fromCharCode (Uint8Array signature)))"

definition hashString :: "platform \<Rightarrow> jsstring \<Rightarrow> error + jsstring" where
  "hashString P input =
     (case subtle_digest P (encode input) of
        None \<Rightarrow> Inl (PlatformError ''crypto.subtle'')
      | Some hashBuffer \<Rightarrow> Inr (concat (map toHex2 (Uint8Array hashBuffer))))"

definition getDeviceInfo :: "env \<Rightarrow> jsstring \<Rightarrow> error + DeviceInfo option" where
  "getDeviceInfo E deviceId = kv_get (CACHE E) (js ''device:'' @ deviceId)"

text \<open>The body of the \<^verbatim>\<open>try\<close> block of \<^verbatim>\<open>verifySignature\<close>.\<close>

definition verifySignature_try ::
  "platform \<Rightarrow> env \<Rightarrow> int \<Rightarrow> jsstring \<Rightarrow> jsstring \<Rightarrow> jsstring \<Rightarrow> jsstring \<Rightarrow> error + bool" where
  "verifySignature_try P E now deviceId timestamp signature requestBody =
     (case getDeviceInfo E deviceId of
        Inl e \<Rightarrow> Inl e
      | Inr None \<Rightarrow> Inl (AuthenticationError (js ''Device not registered''))
      | Inr (Some deviceInfo) \<Rightarrow>
          (let requestTime = parseInt timestamp;
               validityWindow =
                 times (times (parseInt (SIGNATURE_VALIDITY_MINUTES E)) (Num 60)) (Num 1000)
           in if gt (Math_abs (minus_num (Num now) requestTime)) validityWindow
              then Inl (AuthenticationError (js ''Request timestamp expired''))
              else (case hashString P requestBody of
                      Inl e \<Rightarrow> Inl e
                    | Inr h \<Rightarrow>
                        (case generateHMAC P (key_seed deviceInfo) (timestamp @ deviceId @ h) of
                           Inl e \<Rightarrow> Inl e
                         | Inr expectedSignature \<Rightarrow> Inr (signature = expectedSignature)))))"

text \<open>\<^verbatim>\<open>verifySignature\<close>: the \<^verbatim>\<open>catch\<close> clause turns every exception into \<^verbatim>\<open>false\<close>.\<close>

definition verifySignature ::
  "platform \<Rightarrow> env \<Rightarrow> int \<Rightarrow> jsstring \<Rightarrow> jsstring \<Rightarrow> jsstring \<Rightarrow> jsstring \<Rightarrow> error + bool" where
  "verifySignature P E now deviceId timestamp signature requestBody =
     (case verifySignature_try P E now deviceId timestamp signature requestBody of
        Inl e \<Rightarrow> Inr False
      | Inr b \<Rightarrow> Inr b)"

text \<open>\<^verbatim>\<open>${n}\<close> for a number \<open>n\<close> inside a template literal.\<close>

fun numberToString :: "number \<Rightarrow> jsstring" where
  "numberToString (Num n) = toString n"
| "numberToString NaN = js ''NaN''"

definition generateKeySeed :: "platform \<Rightarrow> env \<Rightarrow> int \<Rightarrow> jsstring \<Rightarrow> error + jsstring" where
  "generateKeySeed P E now deviceId =
     (let masterSeed = MASTER_KEY_SEED E;
          timestamp = toString now;
          seedData = masterSeed @ js '':'' @ deviceId @ js '':'' @ timestamp
      in case subtle_sign P (encode masterSeed) (encode seedData) of
           None \<Rightarrow> Inl (PlatformError ''crypto.subtle'')
         | Some signature \<Rightarrow> btoa (map fromCharCode (Uint8Array signature)))"

definition checkRateLimit :: "env \<Rightarrow> int \<Rightarrow> jsstring \<Rightarrow> (error + unit) \<times> env" where
  "checkRateLimit E now deviceId =
     (let key = js ''rate_limit:'' @ deviceId;
          windowStart = now - 60 * 1000
      in case kv_get (RATE_LIMIT E) key of
           Inl e \<Rightarrow> (Inl e, E)
         | Inr currentCount \<Rightarrow>
             (let requests = (case currentCount of None \<Rightarrow> [] | Some r \<Rightarrow> r);
                  recentRequests = filter (\<lambda>timestamp. timestamp > windowStart) requests;
                  maxRequests = parseInt (RATE_LIMIT_PER_MINUTE E)
              in if ge (Num (int (length recentRequests))) maxRequests
                 then (Inl (RateLimitError (js ''Rate limit exceeded: '' @
                         numberToString maxRequests @ js '' requests per minute'')), E)
                 else (case kv_put (RATE_LIMIT E) key (recentRequests @ [now]) 3600 of
                         (r, ns) \<Rightarrow> (r, E\<lparr>RATE_LIMIT := ns\<rparr>))))"

definition storeDeviceInfo :: "env \<Rightarrow> DeviceInfo \<Rightarrow> (error + unit) \<times> env" where
  "storeDeviceInfo E deviceInfo =
     (case kv_put (CACHE E) (js ''device:'' @ device_id deviceInfo) deviceInfo (86400 * 30) of
        (r, ns) \<Rightarrow> (r, E\<lparr>CACHE := ns\<rparr>))"

definition updateDeviceLastSeen :: "env \<Rightarrow> int \<Rightarrow> jsstring \<Rightarrow> (error + unit) \<times> env" where
  "updateDeviceLastSeen E now deviceId =
     (case getDeviceInfo E deviceId of
        Inl e \<Rightarrow> (Inl e, E)
      | Inr None \<Rightarrow> (Inr (), E)
      | Inr (Some deviceInfo) \<Rightarrow>
          storeDeviceInfo E
            (deviceInfo\<lparr>last_seen := ISOString now,
                        request_count := request_count deviceInfo + 1\<rparr>))"

subsubsection \<open>\<^verbatim>\<open>JSON.stringify\<close> of the token payload\<close>

definition unicodeEscape :: "16 word \<Rightarrow> jsstring" where
  "unicodeEscape c =
     [0x5C, 0x75, hexDigit (uint c div 4096), hexDigit (uint c div 256 mod 16),
      hexDigit (uint c div 16 mod 16), hexDigit (uint c mod 16)]"

text \<open>
  One code unit that is not part of a surrogate pair: the two-character escapes, then
  \<^verbatim>\<open>\uXXXX\<close> for a control character or a lone surrogate, the unit itself otherwise.
\<close>

definition quoteUnit :: "16 word \<Rightarrow> jsstring" where
  "quoteUnit c =
     (if c = 0x08 then [0x5C, 0x62]
      else if c = 0x09 then [0x5C, 0x74]
      else if c = 0x0A then [0x5C, 0x6E]
      else if c = 0x0C then [0x5C, 0x66]
      else if c = 0x0D then [0x5C, 0x72]
      else if c = 0x22 then [0x5C, 0x22]
      else if c = 0x5C then [0x5C, 0x5C]
      else if c < 0x20 \<or> isHigh c \<or> isLow c then unicodeEscape c
      else [c])"

fun quoteUnits :: "jsstring \<Rightarrow> jsstring" where
  "quoteUnits [] = []"
| "quoteUnits [c] = quoteUnit c"
| "quoteUnits (c # d # cs) =
     (if isHigh c \<and> isLow d then c # d # quoteUnits cs
      else quoteUnit c @ quoteUnits (d # cs))"

definition QuoteJSONString :: "jsstring \<Rightarrow> jsstring" where
  "QuoteJSONString s = 0x22 # quoteUnits s @ [0x22]"

text \<open>\<^verbatim>\<open>JSON.stringify({device_id: d, issued_at: i, expires_at: x})\<close>.\<close>

definition stringify_payload :: "jsstring \<Rightarrow> int \<Rightarrow> int \<Rightarrow> jsstring" where
  "stringify_payload d i x =
     js ''{'' @ QuoteJSONString (js ''device_id'') @ js '':'' @ QuoteJSONString d @
     js '','' @ QuoteJSONString (js ''issued_at'') @ js '':'' @ toString i @
     js '','' @ QuoteJSONString (js ''expires_at'') @ js '':'' @ toString x @ js ''}''"

definition generateDeviceToken :: "platform \<Rightarrow> env \<Rightarrow> int \<Rightarrow> jsstring \<Rightarrow> error + jsstring" where
  "generateDeviceToken P E now deviceId =
     (let payload = stringify_payload deviceId now (now + 86400 * 1000 * 30);
          payloadBuffer = encode payload;
          keyBuffer = encode (JWT_SECRET E)
      in case subtle_sign P keyBuffer payloadBuffer of
           None \<Rightarrow> Inl (PlatformError ''crypto.subtle'')
         | Some signature \<Rightarrow>
             (case btoa (map fromCharCode (Uint8Array signature)) of
                Inl e \<Rightarrow> Inl e
              | Inr signatureBase64 \<Rightarrow>
                  (case btoa payload of
                     Inl e \<Rightarrow> Inl e
                   | Inr payloadBase64 \<Rightarrow> Inr (payloadBase64 @ js ''.'' @ signatureBase64))))"

text \<open>Strings that \<^verbatim>\<open>btoa\<close> accepts: every code unit is at most \<open>0xFF\<close>.\<close>

definition latin1 :: "jsstring \<Rightarrow> bool" where
  "latin1 s = (\<forall>c\<in>set s. c \<le> 0xFF)"

text \<open>
  The token as the specification words it, for comparison with \<open>generateDeviceToken\<close>:
  the HMAC is taken over the base64 text of the payload.
\<close>

definition token_over_base64 :: "platform \<Rightarrow> env \<Rightarrow> int \<Rightarrow> jsstring \<Rightarrow> error + jsstring" where
  "token_over_base64 P E now deviceId =
     (let payload = stringify_payload deviceId now (now + 86400 * 1000 * 30)
      in case btoa payload of
           Inl e \<Rightarrow> Inl e
         | Inr payloadBase64 \<Rightarrow>
             (case subtle_sign P (encode (JWT_SECRET E)) (encode payloadBase64) of
                None \<Rightarrow> Inl (PlatformError ''crypto.subtle'')
              | Some signature \<Rightarrow>
                  (case btoa (map fromCharCode (Uint8Array signature)) of
                     Inl e \<Rightarrow> Inl e
                   | Inr signatureBase64 \<Rightarrow> Inr (payloadBase64 @ js ''.'' @ signatureBase64))))"

text \<open>The request times recorded for a device.\<close>

definition storedRequests :: "env \<Rightarrow> jsstring \<Rightarrow> int list" where
  "storedRequests E deviceId =
     (case entries (RATE_LIMIT E) (js ''rate_limit:'' @ deviceId) of
        None \<Rightarrow> []
      | Some (requests, ttl) \<Rightarrow> requests)"

text \<open>Successive calls of \<^verbatim>\<open>checkRateLimit\<close> at the given times, up to the first that throws.\<close>

fun checkRateLimit_all :: "env \<Rightarrow> jsstring \<Rightarrow> int list \<Rightarrow> (error + unit) \<times> env" where
  "checkRateLimit_all E deviceId [] = (Inr (), E)"
| "checkRateLimit_all E deviceId (now # rest) =
     (case checkRateLimit E now deviceId of
        (Inl e, E') \<Rightarrow> (Inl e, E')
      | (Inr u, E') \<Rightarrow> checkRateLimit_all E' deviceId rest)"

subsection \<open>The handlers of \<^verbatim>\<open>APIHandlers\<close>\<close>

text \<open>
  A response is a status code and a JSON body. \<open>JDate\<close> is the ISO-8601 string of an
  instant, \<open>JIssues\<close> the issue list of a \<^verbatim>\<open>ZodError\<close>, \<open>JNull\<close> an empty body.
\<close>

datatype json =
    JStr jsstring
  | JNum int
  | JBool bool
  | JDate isotime
  | JObj "(string \<times> json) list"
  | JIssues
  | JNull

type_synonym response = "nat \<times> json"

text \<open>
  \<^verbatim>\<open>deviceRegistrationSchema.parse\<close> on a body with a string \<^verbatim>\<open>device_id\<close> and four
  string fields in \<^verbatim>\<open>device_info\<close>: the length bounds and the platform enumeration.
\<close>

definition deviceRegistrationSchema_parse ::
  "jsstring \<times> device_info_t \<Rightarrow> error + jsstring \<times> device_info_t" where
  "deviceRegistrationSchema_parse body =
     (case body of (did, info) \<Rightarrow>
        if 1 \<le> length did \<and> length did \<le> 100
           \<and> 1 \<le> length (model info) \<and> length (model info) \<le> 50
           \<and> 1 \<le> length (os_version info) \<and> length (os_version info) \<le> 20
           \<and> 1 \<le> length (app_version info) \<and> length (app_version info) \<le> 20
           \<and> (platform info = js ''ios'' \<or> platform info = js ''android'')
        then Inr body else Inl ZodError)"

text \<open>The \<^verbatim>\<open>catch\<close> clause of \<^verbatim>\<open>registerDevice\<close>.\<close>

definition registration_error :: "error \<Rightarrow> response" where
  "registration_error e =
     (if e = ZodError
      then (400, JObj [(''success'', JBool False), (''error'', JStr (js ''Invalid request data'')),
                       (''details'', JIssues)])
      else (500, JObj [(''success'', JBool False), (''error'', JStr (js ''Registration failed''))]))"

text \<open>
  \<^verbatim>\<open>registerDevice\<close>. \<open>now\<close> is the clock before the record is written, \<open>later\<close> the
  clock after the write, when the response is built.
\<close>

definition registerDevice ::
  "platform \<Rightarrow> env \<Rightarrow> int \<Rightarrow> int \<Rightarrow> jsstring \<times> device_info_t \<Rightarrow> response \<times> env" where
  "registerDevice P E now later body =
     (case deviceRegistrationSchema_parse body of
        Inl e \<Rightarrow> (registration_error e, E)
      | Inr (did, info) \<Rightarrow>
          (case generateKeySeed P E now did of
             Inl e \<Rightarrow> (registration_error e, E)
           | Inr keySeed \<Rightarrow>
               (case generateDeviceToken P E now did of
                  Inl e \<Rightarrow> (registration_error e, E)
                | Inr deviceToken \<Rightarrow>
                    (let deviceInfo =
                           \<lparr>device_id = did, key_seed = keySeed,
                            registered_at = ISOString now, last_seen = ISOString now,
                            request_count = 0, device_info = info\<rparr>
                     in case storeDeviceInfo E deviceInfo of
                          (Inl e, E') \<Rightarrow> (registration_error e, E')
                        | (Inr u, E') \<Rightarrow>
                            ((200, JObj [(''success'', JBool True),
                                (''data'', JObj [(''key_seed'', JStr keySeed),
                                   (''expires_at'',
                                      JDate (ISOString (later + 30 * 24 * 60 * 60 * 1000))),
                                   (''device_token'', JStr deviceToken)])]),
                             E')))))"









text \<open>The preflight handler answers 204 with an empty body and constant headers.\<close>

definition handleCORS :: response where
  "handleCORS = (204, JNull)"

definition notFound :: response where
  "notFound =
     (404, JObj [(''success'', JBool False), (''error'', JStr (js ''Not Found'')),
        (''message'', JStr (js ''The requested endpoint does not exist''))])"

text \<open>
  The environment with every stored \<open>key_seed\<close> blanked. Two environments with the
  same image under \<open>forget_key_seeds\<close> differ in the stored secrets only.
\<close>

definition forget_key_seeds :: "env \<Rightarrow> env" where
  "forget_key_seeds E =
     E\<lparr>CACHE := (CACHE E)\<lparr>entries :=
        (\<lambda>k. map_option (\<lambda>(d, ttl). (d\<lparr>key_seed := []\<rparr>, ttl)) (entries (CACHE E) k))\<rparr>\<rparr>"


subsection \<open>Token verification\<close>

record payload =
  token_device_id :: jsstring
  issued_at :: int
  expires_at :: int

datatype verdict = Invalid | Expired | Valid payload

text \<open>The two segments of a token, when it holds exactly one separator.\<close>

definition split_token :: "jsstring \<Rightarrow> (jsstring \<times> jsstring) option" where
  "split_token token =
     (let segment = takeWhile (\<lambda>c. c \<noteq> 0x2E) token;
          rest = dropWhile (\<lambda>c. c \<noteq> 0x2E) token
      in if rest = [] \<or> 0x2E \<in> set (tl rest) then None else Some (segment, tl rest))"

subsection \<open>A concrete platform and environment for instantiating the theorems\<close>

text \<open>
  The stand-in for SHA-256 and HMAC-SHA256 reads its input as a number in base 257.
  Importing an empty HMAC key throws, as WebCrypto does.
\<close>

definition fingerprint :: "byte list \<Rightarrow> 256 word" where
  "fingerprint data = word_of_int (foldl (\<lambda>acc b. acc * 257 + (uint b + 1)) 0 data)"

definition test_platform :: platform where
  "test_platform =
     \<lparr>subtle_digest = (\<lambda>data. Some (fingerprint data)),
      subtle_sign = (\<lambda>key data.
        if key = [] then None else Some (fingerprint (key @ 0 # data)))\<rparr>"

definition test_device :: DeviceInfo where
  "test_device =
     \<lparr>device_id = js ''dev-1'', key_seed = js ''c2VjcmV0'',
      registered_at = ISOString 1700000000000, last_seen = ISOString 1700000000000,
      request_count = 0,
      device_info = \<lparr>model = js ''iPhone15,2'', os_version = js ''17.0'',
                     app_version = js ''1.0.0'', platform = js ''ios''\<rparr>\<rparr>"

definition test_env :: env where
  "test_env =
     \<lparr>MASTER_KEY_SEED = js ''master'', JWT_SECRET = js ''jwt'',
      ENVIRONMENT = js ''production'', API_VERSION = js ''v1'',
      RATE_LIMIT_PER_MINUTE = js ''2'', SIGNATURE_VALIDITY_MINUTES = js ''5'',
      CACHE = \<lparr>entries = [js ''device:dev-1'' \<mapsto> (test_device, 2592000)], online = True\<rparr>,
      RATE_LIMIT = \<lparr>entries = Map.empty, online = True\<rparr>\<rparr>"


text \<open>A registration request of the test device, handled at time \<open>now\<close>.\<close>

definition test_registration :: "env \<Rightarrow> int \<Rightarrow> response \<times> env" where
  "test_registration E now =
     registerDevice test_platform E now now (js ''dev-1'', device_info test_device)"


section \<open>Properties\<close>

subsection \<open>Encoding of digests\<close>

lemma fromCharCode_le: "fromCharCode b \<le> 0xFF"
  unfolding fromCharCode_def
  by (simp add: word_le_def uint_up_ucast is_up) (use uint_lt2p [of b] in simp)

lemma uint_fromCharCode: "uint (fromCharCode b) = uint b"
  unfolding fromCharCode_def by (simp add: uint_up_ucast is_up)

lemma btoa_bytes: "btoa (map fromCharCode bs) = Inr (base64 (map uint bs))"
  by (simp add: btoa_def fromCharCode_le uint_fromCharCode comp_def)

lemma generateHMAC_Some:
  "subtle_sign P (encode key) (encode message) = Some s \<Longrightarrow>
   generateHMAC P key message = Inr (base64 (map uint (Uint8Array s)))"
  by (simp add: generateHMAC_def btoa_bytes)

lemma generateHMAC_None:
  "subtle_sign P (encode key) (encode message) = None \<Longrightarrow>
   generateHMAC P key message = Inl (PlatformError ''crypto.subtle'')"
  by (simp add: generateHMAC_def)

subsection \<open>Signature verification\<close>

lemma hashString_Inl: "hashString P x = Inl e \<Longrightarrow> e = PlatformError ''crypto.subtle''"
  by (auto simp: hashString_def split: option.splits)

lemma generateHMAC_Inl: "generateHMAC P k m = Inl e \<Longrightarrow> e = PlatformError ''crypto.subtle''"
  by (auto simp: generateHMAC_def btoa_bytes split: option.splits)

lemma verifySignature_try_registered:
  assumes "getDeviceInfo E deviceId = Inr (Some d)"
  shows "verifySignature_try P E now deviceId timestamp signature requestBody =
    (if gt (Math_abs (minus_num (Num now) (parseInt timestamp)))
           (times (times (parseInt (SIGNATURE_VALIDITY_MINUTES E)) (Num 60)) (Num 1000))
     then Inl (AuthenticationError (js ''Request timestamp expired''))
     else (case hashString P requestBody of
             Inl e \<Rightarrow> Inl e
           | Inr h \<Rightarrow>
               (case generateHMAC P (key_seed d) (timestamp @ deviceId @ h) of
                  Inl e \<Rightarrow> Inl e
                | Inr expectedSignature \<Rightarrow> Inr (signature = expectedSignature))))"
  using assms by (simp add: verifySignature_try_def Let_def)

lemma verifySignature_in_window:
  assumes reg: "getDeviceInfo E deviceId = Inr (Some d)"
      and ts: "parseInt timestamp = Num t"
      and cfg: "parseInt (SIGNATURE_VALIDITY_MINUTES E) = Num m"
      and win: "\<bar>now - t\<bar> \<le> m * 60 * 1000"
      and h: "hashString P requestBody = Inr h"
      and mac: "generateHMAC P (key_seed d) (timestamp @ deviceId @ h) = Inr expected"
  shows "verifySignature P E now deviceId timestamp signature requestBody = Inr (signature = expected)"
  using win by (simp add: verifySignature_def verifySignature_try_registered [OF reg] ts cfg h mac)

subsection \<open>Facts about the test environment\<close>

lemma test_registered: "getDeviceInfo test_env (js ''dev-1'') = Inr (Some test_device)"
  by (simp add: getDeviceInfo_def kv_get_def test_env_def js_def)

lemma test_validity: "parseInt (SIGNATURE_VALIDITY_MINUTES test_env) = Num 5"
  unfolding test_env_def env.simps by code_simp

lemma test_hash: "hashString test_platform (js ''{}'') =
    Inr (js ''0000000000000000000000000000000000000000000000000000000000007cfa'')"
  by code_simp

lemma test_sign_abc:
  "subtle_sign test_platform (encode (key_seed test_device))
     (encode (js ''abc'' @ js ''dev-1'' @
        js ''0000000000000000000000000000000000000000000000000000000000007cfa'')) =
   Some 90700719513998243029725519005802755090316386100566659540217784775239182596192"
  by (simp add: test_platform_def test_device_def js_def isHigh_def isLow_def utf8_def fingerprint_def)

lemma test_b64_abc:
  "base64 (map uint (Uint8Array 90700719513998243029725519005802755090316386100566659540217784775239182596192))
    = js ''yIbJuu5T/WqqXHDux1eGovunmpFuB6vQ6UEwSfBEOGA=''"
  by code_simp

subsection \<open>Decimal strings\<close>

lemma uint_of_int_small: "0 \<le> k \<Longrightarrow> k < 65536 \<Longrightarrow> uint (of_int k :: 16 word) = k"
  by (simp add: uint_word_of_int_eq take_bit_eq_mod)

lemma uint_decimal: "0 \<le> k \<Longrightarrow> k \<le> 9 \<Longrightarrow> uint (of_int (0x30 + k) :: 16 word) = 0x30 + k"
  by (simp add: uint_word_of_int_eq take_bit_eq_mod del: of_int_add)

lemma decimal_of_int: "0 \<le> k \<Longrightarrow> k \<le> 9 \<Longrightarrow> decimal (of_int (0x30 + k))"
  unfolding decimal_def by (simp only: uint_decimal) simp

lemma decimal_digitValue: "decimal c \<Longrightarrow> digitValue c = Some (uint c - 0x30)"
  by (simp add: decimal_def digitValue_def word_le_def)

lemma decimal_isDigit: "decimal c \<Longrightarrow> isDigit 10 c"
  by (simp add: isDigit_def decimal_digitValue) (simp add: decimal_def)

lemma decimal_not_space: "decimal c \<Longrightarrow> \<not> isWhiteSpace c"
  by (auto simp: decimal_def isWhiteSpace_def word_le_def)

lemma decimal_not_sign: "decimal c \<Longrightarrow> c \<noteq> 0x2D \<and> c \<noteq> 0x2B \<and> c \<noteq> 0x78 \<and> c \<noteq> 0x58"
  by (auto simp: decimal_def)

lemma digits_decimal: "0 \<le> n \<Longrightarrow> digits n \<noteq> [] \<and> (\<forall>c\<in>set (digits n). decimal c)"
proof (induction n rule: digits.induct)
  case (1 n)
  show ?case
  proof (cases "n < 10")
    case True
    have "decimal (of_int (0x30 + n))" by (rule decimal_of_int) (use "1.prems" True in simp_all)
    then show ?thesis using True by (subst (1 2) digits.simps) (simp del: of_int_add)
  next
    case False
    have "0 \<le> n div 10" using "1.prems" by simp
    then have ih: "\<forall>c\<in>set (digits (n div 10)). decimal c" using "1.IH" False by simp
    have "0 \<le> n mod 10" "n mod 10 \<le> 9" by simp_all
    then have "decimal (of_int (0x30 + n mod 10))" by (rule decimal_of_int)
    then show ?thesis using ih False by (subst (1 2) digits.simps) (simp del: of_int_add)
  qed
qed

lemma digitsValue_snoc:
  "digitsValue r (xs @ [c]) = digitsValue r xs * r + the (digitValue c)"
  by (simp add: digitsValue_def)

lemma digitsValue_digits: "0 \<le> n \<Longrightarrow> digitsValue 10 (digits n) = n"
proof (induction n rule: digits.induct)
  case (1 n)
  show ?case
  proof (cases "n < 10")
    case True
    have d: "decimal (of_int (0x30 + n))" by (rule decimal_of_int) (use "1.prems" True in simp_all)
    have "uint (of_int (0x30 + n) :: 16 word) = 0x30 + n"
      by (rule uint_decimal) (use "1.prems" True in simp_all)
    then have "the (digitValue (of_int (0x30 + n))) = n"
      using decimal_digitValue [OF d] by (simp del: of_int_add)
    then show ?thesis using True
      by (subst digits.simps) (simp add: digitsValue_def del: of_int_add)
  next
    case False
    have "0 \<le> n div 10" using "1.prems" by simp
    then have ih: "digitsValue 10 (digits (n div 10)) = n div 10" using "1.IH" False by simp
    have b: "0 \<le> n mod 10" "n mod 10 \<le> 9" by simp_all
    have d: "decimal (of_int (0x30 + n mod 10))" using b by (rule decimal_of_int)
    have "uint (of_int (0x30 + n mod 10) :: 16 word) = 0x30 + n mod 10"
      using b by (rule uint_decimal)
    then have "the (digitValue (of_int (0x30 + n mod 10))) = n mod 10"
      using decimal_digitValue [OF d] by (simp del: of_int_add)
    then show ?thesis using False ih
      by (subst digits.simps) (simp add: digitsValue_snoc del: of_int_add)
  qed
qed

lemma parseInt_decimals:
  assumes ne: "ds \<noteq> []" and dec: "\<forall>c\<in>set ds. decimal c"
  shows "parseInt ds = Num (digitsValue 10 ds)"
    and "parseInt (0x2D # ds) = Num (- digitsValue 10 ds)"
proof -
  obtain c cs where ds: "ds = c # cs" using ne by (cases ds) auto
  have c: "decimal c" using dec ds by simp
  have e1: "dropWhile isWhiteSpace ds = ds"
    using decimal_not_space [OF c] by (simp add: ds)
  have h1: "hd ds \<noteq> 0x2D" "hd ds \<noteq> 0x2B"
    using decimal_not_sign [OF c] by (simp_all add: ds)
  have e5: "takeWhile (isDigit 10) ds = ds"
    using dec decimal_isDigit by (simp add: takeWhile_eq_all_conv)
  have f1: "\<not> isWhiteSpace 0x2D"
    by (simp add: isWhiteSpace_def)
  have x: "ds ! Suc 0 \<noteq> 0x78 \<and> ds ! Suc 0 \<noteq> 0x58" if "2 \<le> length ds"
  proof -
    have "ds ! Suc 0 \<in> set ds" using that by (intro nth_mem) simp
    then have "decimal (ds ! Suc 0)" using dec by blast
    then show ?thesis using decimal_not_sign by blast
  qed
  show "parseInt ds = Num (digitsValue 10 ds)"
  proof (cases "2 \<le> length ds")
    case True
    then show ?thesis using ne h1 x [OF True] by (simp add: parseInt_def Let_def e1 e5)
  next
    case False
    then show ?thesis using ne h1 by (simp add: parseInt_def Let_def e1 e5)
  qed
  show "parseInt (0x2D # ds) = Num (- digitsValue 10 ds)"
  proof (cases "2 \<le> length ds")
    case True
    then show ?thesis using ne x [OF True] by (simp add: parseInt_def Let_def f1 e5)
  next
    case False
    then show ?thesis using ne by (simp add: parseInt_def Let_def f1 e5)
  qed
qed

lemma parseInt_toString: "parseInt (toString n) = Num n"
proof (cases "n < 0")
  case True
  then have "0 \<le> - n" by simp
  then show ?thesis
    using True parseInt_decimals(2) [of "digits (- n)"] digits_decimal [of "- n"]
      digitsValue_digits [of "- n"]
    by (simp add: toString_def)
next
  case False
  then have "0 \<le> n" by simp
  then show ?thesis
    using False parseInt_decimals(1) [of "digits n"] digits_decimal [of n] digitsValue_digits [of n]
    by (simp add: toString_def)
qed

subsection \<open>The encodings lose nothing\<close>

lemma sextet_bounds:
  fixes a :: int
  assumes "0 \<le> a" and "a < 256"
  shows "0 \<le> a div 4" "a div 4 < 64" "0 \<le> a mod 4 * 16" "a mod 4 * 16 \<le> 48"
    "0 \<le> a div 16" "a div 16 < 16" "0 \<le> a mod 16 * 4" "a mod 16 * 4 \<le> 60"
    "0 \<le> a div 64" "a div 64 < 4" "0 \<le> a mod 64" "a mod 64 < 64"
proof -
  have d4: "a = 4 * (a div 4) + a mod 4" and m4: "0 \<le> a mod 4" "a mod 4 < 4" by simp_all
  have d16: "a = 16 * (a div 16) + a mod 16" and m16: "0 \<le> a mod 16" "a mod 16 < 16" by simp_all
  have d64: "a = 64 * (a div 64) + a mod 64" and m64: "0 \<le> a mod 64" "a mod 64 < 64" by simp_all
  show "0 \<le> a div 4" "a div 4 < 64" using assms d4 m4 by linarith+
  show "0 \<le> a mod 4 * 16" "a mod 4 * 16 \<le> 48" using m4 by linarith+
  show "0 \<le> a div 16" "a div 16 < 16" using assms d16 m16 by linarith+
  show "0 \<le> a mod 16 * 4" "a mod 16 * 4 \<le> 60" using m16 by linarith+
  show "0 \<le> a div 64" "a div 64 < 4" using assms d64 m64 by linarith+
  show "0 \<le> a mod 64" "a mod 64 < 64" using m64 by linarith+
qed

lemma Uint8Array_inj:
  assumes eq: "Uint8Array w = Uint8Array w'"
  shows "w = w'"
proof (rule bit_word_eqI)
  fix n assume n: "n < LENGTH(256)"
  let ?i = "31 - n div 8"
  have i: "?i < 32" by simp
  have k: "31 - ?i = n div 8" using n by simp
  from eq have "Uint8Array w ! ?i = Uint8Array w' ! ?i" by simp
  then have "(ucast (drop_bit (8 * (n div 8)) w) :: 8 word) = ucast (drop_bit (8 * (n div 8)) w')"
    unfolding Uint8Array_def using i k by (simp del: upt_Suc)
  then have "bit (ucast (drop_bit (8 * (n div 8)) w) :: 8 word) (n mod 8)
      = bit (ucast (drop_bit (8 * (n div 8)) w') :: 8 word) (n mod 8)"
    by simp
  then show "bit w n = bit w' n"
    by (simp add: bit_ucast_iff bit_drop_bit_eq)
qed

lemma b64val_b64char: "0 \<le> n \<Longrightarrow> n < 64 \<Longrightarrow> b64val (b64char n) = Some n"
proof -
  assume n: "0 \<le> n" "n < 64"
  consider "n < 26" | "26 \<le> n" "n < 52" | "52 \<le> n" "n < 62" | "n = 62" | "n = 63"
    using n by linarith
  then show ?thesis
  proof cases
    case 1
    have u: "uint (of_int (0x41 + n) :: 16 word) = 0x41 + n"
      by (rule uint_of_int_small) (use n 1 in simp_all)
    show ?thesis using 1 n u
      by (simp add: b64char_def b64val_def word_le_def del: of_int_add)
  next
    case 2
    have u: "uint (of_int (0x61 + (n - 26)) :: 16 word) = 0x61 + (n - 26)"
      by (rule uint_of_int_small) (use n 2 in simp_all)
    show ?thesis using 2 n u
      by (simp add: b64char_def b64val_def word_le_def del: of_int_add of_int_diff)
  next
    case 3
    have u: "uint (of_int (0x30 + (n - 52)) :: 16 word) = 0x30 + (n - 52)"
      by (rule uint_of_int_small) (use n 3 in simp_all)
    show ?thesis using 3 n u
      by (simp add: b64char_def b64val_def word_le_def del: of_int_add of_int_diff)
  next
    case 4
    then show ?thesis by (simp add: b64char_def b64val_def)
  next
    case 5
    then show ?thesis by (simp add: b64char_def b64val_def)
  qed
qed

lemma b64char_not_pad: "0 \<le> n \<Longrightarrow> n < 64 \<Longrightarrow> b64char n \<noteq> 0x3D"
proof
  assume n: "0 \<le> n" "n < 64" and "b64char n = 0x3D"
  then have "b64val (0x3D) = Some n" using b64val_b64char [OF n] by simp
  then show False by (simp add: b64val_def)
qed

lemma sextets_back:
  fixes a b c :: int
  assumes "0 \<le> a" "a < 256" "0 \<le> b" "b < 256" "0 \<le> c" "c < 256"
  shows "a div 4 * 4 + (a mod 4 * 16 + b div 16) div 16 = a"
    and "(a mod 4 * 16 + b div 16) mod 16 * 16 + (b mod 16 * 4 + c div 64) div 4 = b"
    and "(b mod 16 * 4 + c div 64) mod 4 * 64 + c mod 64 = c"
    and "a div 4 * 4 + (a mod 4 * 16) div 16 = a"
    and "(a mod 4 * 16 + b div 16) mod 16 * 16 + (b mod 16 * 4) div 4 = b"
proof -
  note b16 = sextet_bounds(5,6) [OF assms(3,4)]
  note c64 = sextet_bounds(9,10) [OF assms(5,6)]
  have e1: "(a mod 4 * 16 + b div 16) div 16 = a mod 4"
    using b16 by (simp add: div_pos_pos_trivial)
  have e2: "(a mod 4 * 16 + b div 16) mod 16 = b div 16"
    using b16 by (simp add: mod_pos_pos_trivial)
  have e3: "(b mod 16 * 4 + c div 64) div 4 = b mod 16"
    using c64 by (simp add: div_pos_pos_trivial)
  have e4: "(b mod 16 * 4 + c div 64) mod 4 = c div 64"
    using c64 by (simp add: mod_pos_pos_trivial)
  show "a div 4 * 4 + (a mod 4 * 16 + b div 16) div 16 = a" by (simp only: e1) simp
  show "(a mod 4 * 16 + b div 16) mod 16 * 16 + (b mod 16 * 4 + c div 64) div 4 = b"
    by (simp only: e2 e3) simp
  show "(b mod 16 * 4 + c div 64) mod 4 * 64 + c mod 64 = c" by (simp only: e4) simp
  show "a div 4 * 4 + (a mod 4 * 16) div 16 = a" by simp
  show "(a mod 4 * 16 + b div 16) mod 16 * 16 + (b mod 16 * 4) div 4 = b"
    by (simp only: e2) simp
qed

lemma atob_base64:
  "\<forall>x\<in>set xs. 0 \<le> x \<and> x < 256 \<Longrightarrow> atob (base64 xs) = Some xs"
proof (induction xs rule: base64.induct)
  case 1
  then show ?case by simp
next
  case (2 a)
  then have a: "0 \<le> a" "a < 256" by simp_all
  define s1 s2 where "s1 = a div 4" and "s2 = a mod 4 * 16"
  have base: "base64 [a] = [b64char s1, b64char s2, 0x3D, 0x3D]"
    by (simp add: s1_def s2_def)
  have v1: "b64val (b64char s1) = Some s1"
    unfolding s1_def using sextet_bounds(1,2) [OF a] by (rule b64val_b64char)
  have v2: "b64val (b64char s2) = Some s2"
    unfolding s2_def by (rule b64val_b64char) (use sextet_bounds(3,4) [OF a] in simp_all)
  have bk: "s1 * 4 + s2 div 16 = a"
    unfolding s1_def s2_def by (rule sextets_back(4) [OF a a a])
  show ?case by (simp only: base) (simp add: v1 v2 bk)
next
  case (3 a b)
  then have a: "0 \<le> a" "a < 256" and b: "0 \<le> b" "b < 256" by simp_all
  define s1 s2 s3 where "s1 = a div 4" and "s2 = a mod 4 * 16 + b div 16" and "s3 = b mod 16 * 4"
  have base: "base64 [a, b] = [b64char s1, b64char s2, b64char s3, 0x3D]"
    by (simp add: s1_def s2_def s3_def)
  have v1: "b64val (b64char s1) = Some s1"
    unfolding s1_def using sextet_bounds(1,2) [OF a] by (rule b64val_b64char)
  have v2: "b64val (b64char s2) = Some s2"
    unfolding s2_def
    by (rule b64val_b64char) (use sextet_bounds(3,4) [OF a] sextet_bounds(5,6) [OF b] in simp_all)
  have r3: "0 \<le> s3" "s3 < 64"
    unfolding s3_def using sextet_bounds(7,8) [OF b] by simp_all
  note v3 = b64val_b64char [OF r3] and n3 = b64char_not_pad [OF r3]
  have bk: "s1 * 4 + s2 div 16 = a" "s2 mod 16 * 16 + s3 div 4 = b"
    unfolding s1_def s2_def s3_def by (rule sextets_back(1,5) [OF a b b])+
  show ?case by (simp only: base) (simp add: v1 v2 v3 n3 bk)
next
  case (4 a b c rest)
  then have a: "0 \<le> a" "a < 256" and b: "0 \<le> b" "b < 256" and c: "0 \<le> c" "c < 256"
    and ih: "atob (base64 rest) = Some rest" by simp_all
  define s1 s2 s3 s4 where "s1 = a div 4" and "s2 = a mod 4 * 16 + b div 16"
    and "s3 = b mod 16 * 4 + c div 64" and "s4 = c mod 64"
  have base: "base64 (a # b # c # rest) =
      b64char s1 # b64char s2 # b64char s3 # b64char s4 # base64 rest"
    by (simp add: s1_def s2_def s3_def s4_def)
  have v1: "b64val (b64char s1) = Some s1"
    unfolding s1_def using sextet_bounds(1,2) [OF a] by (rule b64val_b64char)
  have v2: "b64val (b64char s2) = Some s2"
    unfolding s2_def
    by (rule b64val_b64char) (use sextet_bounds(3,4) [OF a] sextet_bounds(5,6) [OF b] in simp_all)
  have r3: "0 \<le> s3" "s3 < 64"
    unfolding s3_def using sextet_bounds(7,8) [OF b] sextet_bounds(9,10) [OF c] by simp_all
  have r4: "0 \<le> s4" "s4 < 64"
    unfolding s4_def using sextet_bounds(11,12) [OF c] by simp_all
  note v3 = b64val_b64char [OF r3] and n3 = b64char_not_pad [OF r3]
  note v4 = b64val_b64char [OF r4] and n4 = b64char_not_pad [OF r4]
  have bk: "s1 * 4 + s2 div 16 = a" "s2 mod 16 * 16 + s3 div 4 = b" "s3 mod 4 * 64 + s4 = c"
    unfolding s1_def s2_def s3_def s4_def by (rule sextets_back(1,2,3) [OF a b c])+
  show ?case by (simp only: base) (simp add: v1 v2 v3 v4 n3 n4 bk ih)
qed

lemma base64_inj:
  assumes "\<forall>x\<in>set xs. 0 \<le> x \<and> x < 256" and "\<forall>x\<in>set ys. 0 \<le> x \<and> x < 256"
      and "base64 xs = base64 ys"
  shows "xs = ys"
proof -
  have "Some xs = atob (base64 xs)" using assms(1) by (simp add: atob_base64)
  also have "\<dots> = atob (base64 ys)" using assms(3) by simp
  also have "\<dots> = Some ys" using assms(2) by (simp add: atob_base64)
  finally show ?thesis by simp
qed

lemma uint_byte_bounds: "\<forall>x\<in>set (map uint (bs :: byte list)). 0 \<le> x \<and> x < 256"
proof
  fix x assume "x \<in> set (map uint bs)"
  then obtain b :: byte where "x = uint b" by auto
  then show "0 \<le> x \<and> x < 256" using uint_lt2p [of b] by simp
qed

lemma base64_digest_inj:
  assumes "base64 (map uint (Uint8Array s)) = base64 (map uint (Uint8Array s'))"
  shows "s = s'"
proof -
  have "map uint (Uint8Array s) = map uint (Uint8Array s')"
    using base64_inj [OF uint_byte_bounds uint_byte_bounds assms] .
  then have "Uint8Array s = Uint8Array s'"
    by (simp add: inj_map_eq_map inj_def word_uint_eq_iff)
  then show ?thesis by (rule Uint8Array_inj)
qed

lemma uint_hexDigit:
  "0 \<le> n \<Longrightarrow> n < 16 \<Longrightarrow> uint (hexDigit n) = (if n < 10 then 0x30 + n else 0x57 + n)"
  by (simp add: hexDigit_def uint_of_int_small del: of_int_add of_int_diff)

lemma hexDigit_inj:
  assumes "0 \<le> n" "n < 16" "0 \<le> m" "m < 16" "hexDigit n = hexDigit m"
  shows "n = m"
proof -
  have "uint (hexDigit n) = uint (hexDigit m)" using assms(5) by simp
  then show ?thesis
    using assms(1-4) by (simp add: uint_hexDigit split: if_splits)
qed

lemma toHex2_inj:
  assumes "toHex2 b = toHex2 b'"
  shows "b = b'"
proof -
  have bb: "0 \<le> uint b" "uint b < 256" "0 \<le> uint b'" "uint b' < 256"
    using uint_lt2p [of b] uint_lt2p [of b'] by simp_all
  have d: "uint b div 16 = uint b' div 16"
    using assms sextet_bounds(5,6) [OF bb(1,2)] sextet_bounds(5,6) [OF bb(3,4)]
    by (auto simp: toHex2_def intro: hexDigit_inj)
  have m: "uint b mod 16 = uint b' mod 16"
    using assms by (auto simp: toHex2_def intro: hexDigit_inj)
  have "uint b = 16 * (uint b div 16) + uint b mod 16" by simp
  also have "\<dots> = 16 * (uint b' div 16) + uint b' mod 16" by (simp only: d m)
  also have "\<dots> = uint b'" by simp
  finally show ?thesis by (simp add: word_uint_eq_iff)
qed

lemma toHex2_Cons: "\<exists>x y. toHex2 b = [x, y]"
  by (simp add: toHex2_def)

lemma hex_inj: "concat (map toHex2 bs) = concat (map toHex2 bs') \<Longrightarrow> bs = bs'"
proof (induction bs arbitrary: bs')
  case Nil
  then show ?case
  proof (cases bs')
    case (Cons b' rest)
    then show ?thesis using Nil toHex2_Cons [of b'] by auto
  qed simp
next
  case (Cons b bs)
  obtain x y where xy: "toHex2 b = [x, y]" using toHex2_Cons by blast
  show ?case
  proof (cases bs')
    case Nil
    then show ?thesis using Cons.prems xy by simp
  next
    case c: (Cons b' rest)
    obtain x' y' where xy': "toHex2 b' = [x', y']" using toHex2_Cons by blast
    from Cons.prems c xy xy' have h: "toHex2 b = toHex2 b'"
      and t: "concat (map toHex2 bs) = concat (map toHex2 rest)" by simp_all
    from toHex2_inj [OF h] Cons.IH [OF t] c show ?thesis by simp
  qed
qed

lemma hashString_inj:
  assumes "hashString P B = Inr h" and "hashString P B' = Inr h'"
      and "subtle_digest P (encode B) \<noteq> subtle_digest P (encode B')"
  shows "h \<noteq> h'"
proof
  assume eq: "h = h'"
  from assms(1) obtain w where w: "subtle_digest P (encode B) = Some w"
    and h: "h = concat (map toHex2 (Uint8Array w))"
    by (auto simp: hashString_def split: option.splits)
  from assms(2) obtain w' where w': "subtle_digest P (encode B') = Some w'"
    and h': "h' = concat (map toHex2 (Uint8Array w'))"
    by (auto simp: hashString_def split: option.splits)
  from eq h h' have "Uint8Array w = Uint8Array w'" by (simp add: hex_inj)
  then have "w = w'" by (rule Uint8Array_inj)
  with w w' assms(3) show False by simp
qed

lemma ascii_not_surrogate: "c < 0x80 \<Longrightarrow> \<not> isHigh c \<and> \<not> isLow c"
  for c :: "16 word"
  by (auto simp: isHigh_def isLow_def word_le_def word_less_def)

lemma encode_append:
  "ys = [] \<or> \<not> isLow (hd ys) \<Longrightarrow> encode (xs @ ys) = encode xs @ encode ys"
proof (induction xs rule: encode.induct)
  case 1
  then show ?case by simp
next
  case (2 c)
  then show ?case by (cases ys) auto
next
  case (3 c d cs)
  then show ?case by auto
qed

lemma utf8_ascii: "c < 0x80 \<Longrightarrow> map uint (utf8 (uint c)) = [uint c]"
  for c :: "16 word"
proof -
  assume c: "c < 0x80"
  then have u: "uint c < 0x80" by (simp add: word_less_def)
  have "uint (ucast c :: 8 word) = uint c"
    using u uint_lt2p [of c] by (simp add: unsigned_ucast_eq take_bit_eq_mod)
  then show ?thesis using u by (simp add: utf8_def)
qed

lemma encode_ascii: "ascii s \<Longrightarrow> map uint (encode s) = map uint s"
proof (induction s rule: encode.induct)
  case 1
  then show ?case by simp
next
  case (2 c)
  then show ?case by (simp add: ascii_def ascii_not_surrogate utf8_ascii)
next
  case (3 c d cs)
  then show ?case by (simp add: ascii_def ascii_not_surrogate utf8_ascii)
qed

lemma encode_ascii_inj:
  assumes "ascii s" "ascii s'" "encode s = encode s'"
  shows "s = s'"
proof -
  have "map uint s = map uint (encode s)" by (rule encode_ascii [OF assms(1), symmetric])
  also have "\<dots> = map uint (encode s')" by (simp only: assms(3))
  also have "\<dots> = map uint s'" by (rule encode_ascii [OF assms(2)])
  finally have "map uint s = map uint s'" .
  then show ?thesis by (simp add: inj_map_eq_map inj_def word_uint_eq_iff)
qed

lemma encode_suffix_neq:
  assumes "ascii s" "ascii s'" "s \<noteq> s'"
  shows "encode (p @ s) \<noteq> encode (p @ s')"
proof -
  have nl: "t = [] \<or> \<not> isLow (hd t)" if "ascii t" for t
    using that by (cases t) (auto simp: ascii_def ascii_not_surrogate)
  have "encode s \<noteq> encode s'" using encode_ascii_inj [OF assms(1,2)] assms(3) by blast
  then show ?thesis
    by (simp add: encode_append [OF nl [OF assms(1)]] encode_append [OF nl [OF assms(2)]])
qed

lemma hexDigit_ascii: "0 \<le> n \<Longrightarrow> n < 16 \<Longrightarrow> hexDigit n < 0x80"
proof -
  assume n: "0 \<le> n" "n < 16"
  then have "uint (hexDigit n) < 0x80" by (simp add: uint_hexDigit)
  then show ?thesis by (simp add: word_less_def)
qed

lemma hex_ascii: "ascii (concat (map toHex2 bs))"
proof -
  have "toHex2 b ! 0 < 0x80 \<and> toHex2 b ! 1 < 0x80" for b :: byte
  proof -
    have bb: "0 \<le> uint b" "uint b < 256" using uint_lt2p [of b] by simp_all
    have "0 \<le> uint b mod 16" "uint b mod 16 < 16" by simp_all
    then show ?thesis
      using sextet_bounds(5,6) [OF bb] by (simp add: toHex2_def hexDigit_ascii)
  qed
  then show ?thesis by (auto simp: ascii_def toHex2_def)
qed

lemma hashString_ascii: "hashString P B = Inr h \<Longrightarrow> ascii h"
  by (auto simp: hashString_def hex_ascii split: option.splits)

lemma decimal_ascii: "decimal c \<Longrightarrow> c < 0x80"
  by (simp add: decimal_def word_less_def)

lemma toString_ascii: "ascii (toString n)"
proof (cases "n < 0")
  case True
  then have "\<forall>c\<in>set (digits (- n)). decimal c" using digits_decimal [of "- n"] by simp
  then show ?thesis using True by (auto simp: toString_def ascii_def decimal_ascii)
next
  case False
  then have "\<forall>c\<in>set (digits n). decimal c" using digits_decimal [of n] by simp
  then show ?thesis using False by (auto simp: toString_def ascii_def decimal_ascii)
qed

lemma toString_inj: "toString n = toString m \<Longrightarrow> n = m"
proof -
  assume "toString n = toString m"
  then have "parseInt (toString n) = parseInt (toString m)" by simp
  then show ?thesis by (simp add: parseInt_toString)
qed

subsection \<open>The replay window\<close>

lemma test_past_sign:
  "subtle_sign test_platform (encode (key_seed test_device))
     (encode (js ''1699999700000'' @ js ''dev-1'' @
        js ''0000000000000000000000000000000000000000000000000000000000007cfa'')) =
   Some 88191190992220658278618777606514118643175226837166653413597663096958297926895"
  by (simp add: test_platform_def test_device_def js_def isHigh_def isLow_def utf8_def fingerprint_def)

lemma test_past_b64:
  "base64 (map uint (Uint8Array 88191190992220658278618777606514118643175226837166653413597663096958297926895))
    = js ''wvpx+KXfYb0oOXtPfO1t2U1868C04bRAhQOrInxRbO8=''"
  by code_simp

lemma test_past_mac:
  "generateHMAC test_platform (key_seed test_device)
     (js ''1699999700000'' @ js ''dev-1'' @ js ''0000000000000000000000000000000000000000000000000000000000007cfa'')
   = Inr (js ''wvpx+KXfYb0oOXtPfO1t2U1868C04bRAhQOrInxRbO8='')"
  using generateHMAC_Some [OF test_past_sign] test_past_b64 by simp

lemma test_stale_sign:
  "subtle_sign test_platform (encode (key_seed test_device))
     (encode (js ''1699999699999'' @ js ''dev-1'' @
        js ''0000000000000000000000000000000000000000000000000000000000007cfa'')) =
   Some 106314417099182131844103686976389163404114309447266533583825086247605745131035"
  by (simp add: test_platform_def test_device_def js_def isHigh_def isLow_def utf8_def fingerprint_def)

lemma test_stale_b64:
  "base64 (map uint (Uint8Array 106314417099182131844103686976389163404114309447266533583825086247605745131035))
    = js ''6wvT4hw/dO48dv9vToevDNAGqKz5lZURMqDMkwPOnhs=''"
  by code_simp

lemma test_stale_mac:
  "generateHMAC test_platform (key_seed test_device)
     (js ''1699999699999'' @ js ''dev-1'' @ js ''0000000000000000000000000000000000000000000000000000000000007cfa'')
   = Inr (js ''6wvT4hw/dO48dv9vToevDNAGqKz5lZURMqDMkwPOnhs='')"
  using generateHMAC_Some [OF test_stale_sign] test_stale_b64 by simp

lemma test_ahead_sign:
  "subtle_sign test_platform (encode (key_seed test_device))
     (encode (js ''1700000300000'' @ js ''dev-1'' @
        js ''0000000000000000000000000000000000000000000000000000000000007cfa'')) =
   Some 50866802012040020238848663038955444670885025910740859834958826483063443426239"
  by (simp add: test_platform_def test_device_def js_def isHigh_def isLow_def utf8_def fingerprint_def)

lemma test_ahead_b64:
  "base64 (map uint (Uint8Array 50866802012040020238848663038955444670885025910740859834958826483063443426239))
    = js ''cHWW9ON6Etw+7O+x7jgpBm+z9Vu5MGrw0MWWRqnkC78=''"
  by code_simp

lemma test_ahead_mac:
  "generateHMAC test_platform (key_seed test_device)
     (js ''1700000300000'' @ js ''dev-1'' @ js ''0000000000000000000000000000000000000000000000000000000000007cfa'')
   = Inr (js ''cHWW9ON6Etw+7O+x7jgpBm+z9Vu5MGrw0MWWRqnkC78='')"
  using generateHMAC_Some [OF test_ahead_sign] test_ahead_b64 by simp

lemma test_beyond_sign:
  "subtle_sign test_platform (encode (key_seed test_device))
     (encode (js ''1700000300001'' @ js ''dev-1'' @
        js ''0000000000000000000000000000000000000000000000000000000000007cfa'')) =
   Some 113410174283231676447970995251019547441462674193560966160285912610201398038720"
  by (simp add: test_platform_def test_device_def js_def isHigh_def isLow_def utf8_def fingerprint_def)

lemma test_beyond_b64:
  "base64 (map uint (Uint8Array 113410174283231676447970995251019547441462674193560966160285912610201398038720))
    = js ''+rviSATaI9sHX4fSMqlV7rgl/lEyPvEpC685CF0OUMA=''"
  by code_simp

lemma test_beyond_mac:
  "generateHMAC test_platform (key_seed test_device)
     (js ''1700000300001'' @ js ''dev-1'' @ js ''0000000000000000000000000000000000000000000000000000000000007cfa'')
   = Inr (js ''+rviSATaI9sHX4fSMqlV7rgl/lEyPvEpC685CF0OUMA='')"
  using generateHMAC_Some [OF test_beyond_sign] test_beyond_b64 by simp

text \<open>
  Claim C2. For a registered device, a timestamp that \<^verbatim>\<open>parseInt\<close> reads as the number
  \<open>t\<close> and a validity setting that reads as \<open>m\<close> minutes, \<^verbatim>\<open>verifySignature\<close> rejects
  the timestamp exactly when \<open>\<bar>now - t\<bar> > m * 60 * 1000\<close>: its \<^verbatim>\<open>try\<close> block throws
  ``Request timestamp expired'' exactly then, every signature is answered with
  \<^verbatim>\<open>false\<close> then, and a correctly signed request is answered with \<^verbatim>\<open>true\<close> exactly
  when \<open>\<bar>now - t\<bar> \<le> m * 60 * 1000\<close>. The bound is the same for the past and the
  future: a timestamp exactly one window away is accepted, one millisecond further
  is rejected.
\<close>

theorem verifySignature_replay_window:
  assumes reg: "getDeviceInfo E deviceId = Inr (Some d)"
      and ts: "parseInt timestamp = Num t"
      and cfg: "parseInt (SIGNATURE_VALIDITY_MINUTES E) = Num m"
  shows "(verifySignature_try P E now deviceId timestamp signature requestBody
            = Inl (AuthenticationError (js ''Request timestamp expired''))
          \<longleftrightarrow> \<bar>now - t\<bar> > m * 60 * 1000)
       \<and> (\<bar>now - t\<bar> > m * 60 * 1000 \<longrightarrow>
            verifySignature P E now deviceId timestamp signature requestBody = Inr False)
       \<and> (\<forall>h expected.
            hashString P requestBody = Inr h \<longrightarrow>
            generateHMAC P (key_seed d) (timestamp @ deviceId @ h) = Inr expected \<longrightarrow>
            verifySignature P E now deviceId timestamp expected requestBody
              = Inr (\<bar>now - t\<bar> \<le> m * 60 * 1000))"
proof -
  let ?r = "verifySignature_try P E now deviceId timestamp signature requestBody"
  have exp: "\<bar>now - t\<bar> > m * 60 * 1000 \<Longrightarrow>
             ?r = Inl (AuthenticationError (js ''Request timestamp expired''))"
    by (simp add: verifySignature_try_registered [OF reg] ts cfg)
  have nexp: "?r \<noteq> Inl (AuthenticationError (js ''Request timestamp expired''))"
    if "\<not> \<bar>now - t\<bar> > m * 60 * 1000"
  proof
    assume a: "?r = Inl (AuthenticationError (js ''Request timestamp expired''))"
    show False
    proof (cases "hashString P requestBody")
      case (Inl e)
      with a that show False
        using hashString_Inl [OF Inl]
        by (simp add: verifySignature_try_registered [OF reg] ts cfg)
    next
      case (Inr h)
      show False
      proof (cases "generateHMAC P (key_seed d) (timestamp @ deviceId @ h)")
        case (Inl e)
        with a that Inr show False
          using generateHMAC_Inl [OF Inl]
          by (simp add: verifySignature_try_registered [OF reg] ts cfg)
      next
        case (Inr x)
        with a that \<open>hashString P requestBody = Inr h\<close> show False
          by (simp add: verifySignature_try_registered [OF reg] ts cfg)
      qed
    qed
  qed
  have signed: "verifySignature P E now deviceId timestamp expected requestBody
                  = Inr (\<bar>now - t\<bar> \<le> m * 60 * 1000)"
    if "hashString P requestBody = Inr h"
      and "generateHMAC P (key_seed d) (timestamp @ deviceId @ h) = Inr expected"
    for h expected
    using that
    by (simp add: verifySignature_def verifySignature_try_registered [OF reg] ts cfg not_less)
  have out: "\<bar>now - t\<bar> > m * 60 * 1000 \<longrightarrow>
      verifySignature P E now deviceId timestamp signature requestBody = Inr False"
    using exp by (simp add: verifySignature_def)
  from exp nexp have iff: "?r = Inl (AuthenticationError (js ''Request timestamp expired''))
      \<longleftrightarrow> \<bar>now - t\<bar> > m * 60 * 1000"
    by blast
  from iff out signed show ?thesis by blast
qed

theorem verifySignature_replay_window_witness:
  "verifySignature test_platform test_env 1700000000000 (js ''dev-1'') (js ''1699999700000'')
       (js ''wvpx+KXfYb0oOXtPfO1t2U1868C04bRAhQOrInxRbO8='') (js ''{}'') = Inr True
   \<and> verifySignature test_platform test_env 1700000000000 (js ''dev-1'') (js ''1699999699999'')
       (js ''6wvT4hw/dO48dv9vToevDNAGqKz5lZURMqDMkwPOnhs='') (js ''{}'') = Inr False
   \<and> verifySignature test_platform test_env 1700000000000 (js ''dev-1'') (js ''1700000300000'')
       (js ''cHWW9ON6Etw+7O+x7jgpBm+z9Vu5MGrw0MWWRqnkC78='') (js ''{}'') = Inr True
   \<and> verifySignature test_platform test_env 1700000000000 (js ''dev-1'') (js ''1700000300001'')
       (js ''+rviSATaI9sHX4fSMqlV7rgl/lEyPvEpC685CF0OUMA='') (js ''{}'') = Inr False
   \<and> verifySignature_try test_platform test_env 1700000000000 (js ''dev-1'') (js ''1699999699999'')
       (js ''6wvT4hw/dO48dv9vToevDNAGqKz5lZURMqDMkwPOnhs='') (js ''{}'') = Inl (AuthenticationError (js ''Request timestamp expired''))
   \<and> verifySignature_try test_platform test_env 1700000000000 (js ''dev-1'') (js ''1700000300001'')
       (js ''+rviSATaI9sHX4fSMqlV7rgl/lEyPvEpC685CF0OUMA='') (js ''{}'') = Inl (AuthenticationError (js ''Request timestamp expired''))"
proof -
  have p1: "parseInt (js ''1699999700000'') = Num 1699999700000" by code_simp
  have p2: "parseInt (js ''1699999699999'') = Num 1699999699999" by code_simp
  have p3: "parseInt (js ''1700000300000'') = Num 1700000300000" by code_simp
  have p4: "parseInt (js ''1700000300001'') = Num 1700000300001" by code_simp
  show ?thesis
    using verifySignature_replay_window [OF test_registered p1 test_validity,
        of test_platform 1700000000000 "js ''wvpx+KXfYb0oOXtPfO1t2U1868C04bRAhQOrInxRbO8=''" "js ''{}''"]
      verifySignature_replay_window [OF test_registered p2 test_validity,
        of test_platform 1700000000000 "js ''6wvT4hw/dO48dv9vToevDNAGqKz5lZURMqDMkwPOnhs=''" "js ''{}''"]
      verifySignature_replay_window [OF test_registered p3 test_validity,
        of test_platform 1700000000000 "js ''cHWW9ON6Etw+7O+x7jgpBm+z9Vu5MGrw0MWWRqnkC78=''" "js ''{}''"]
      verifySignature_replay_window [OF test_registered p4 test_validity,
        of test_platform 1700000000000 "js ''+rviSATaI9sHX4fSMqlV7rgl/lEyPvEpC685CF0OUMA=''" "js ''{}''"]
      test_hash test_past_mac test_stale_mac test_ahead_mac test_beyond_mac
    by simp
qed

subsection \<open>Failures surface as \<^verbatim>\<open>false\<close>\<close>







subsection \<open>A timestamp that is not a number\<close>

text \<open>
  Claim C10. When \<^verbatim>\<open>parseInt\<close> reads the timestamp string as \<^verbatim>\<open>NaN\<close> (the string
  \<^verbatim>\<open>abc\<close> is one), the comparison \<^verbatim>\<open>Math.abs(now - NaN) > validityWindow\<close> is false, so
  the expiry check does not reject; \<^verbatim>\<open>verifySignature\<close> returns \<^verbatim>\<open>true\<close> for the
  signature computed over the literal timestamp string, at every time \<open>now\<close>.
\<close>

theorem verifySignature_NaN_timestamp:
  assumes nan: "parseInt timestamp = NaN"
      and reg: "getDeviceInfo E deviceId = Inr (Some d)"
      and h: "hashString P requestBody = Inr h"
      and mac: "generateHMAC P (key_seed d) (timestamp @ deviceId @ h) = Inr expected"
  shows "verifySignature_try P E now deviceId timestamp signature requestBody
           \<noteq> Inl (AuthenticationError (js ''Request timestamp expired''))
       \<and> verifySignature P E now deviceId timestamp expected requestBody = Inr True"
  by (simp add: verifySignature_def verifySignature_try_registered [OF reg] nan h mac)

theorem verifySignature_NaN_timestamp_witness:
  "parseInt (js ''abc'') = NaN
   \<and> verifySignature test_platform test_env 1700000000000 (js ''dev-1'') (js ''abc'')
        (js ''yIbJuu5T/WqqXHDux1eGovunmpFuB6vQ6UEwSfBEOGA='') (js ''{}'') = Inr True
   \<and> verifySignature test_platform test_env 4102444800000 (js ''dev-1'') (js ''abc'')
        (js ''yIbJuu5T/WqqXHDux1eGovunmpFuB6vQ6UEwSfBEOGA='') (js ''{}'') = Inr True"
proof -
  have nan: "parseInt (js ''abc'') = NaN" by code_simp
  have mac: "generateHMAC test_platform (key_seed test_device)
      (js ''abc'' @ js ''dev-1'' @ js ''0000000000000000000000000000000000000000000000000000000000007cfa'')
      = Inr (js ''yIbJuu5T/WqqXHDux1eGovunmpFuB6vQ6UEwSfBEOGA='')"
    using generateHMAC_Some [OF test_sign_abc] test_b64_abc by simp
  show ?thesis
    using nan verifySignature_NaN_timestamp [OF nan test_registered test_hash mac]
    by simp
qed

subsection \<open>The rate limiter\<close>

lemma checkRateLimit_step:
  assumes "online (RATE_LIMIT E)" and "parseInt (RATE_LIMIT_PER_MINUTE E) = Num (int N)"
  shows "checkRateLimit E now deviceId =
    (let recent = filter (\<lambda>x. x > now - 60000) (storedRequests E deviceId) in
     if length recent \<ge> N
     then (Inl (RateLimitError (js ''Rate limit exceeded: '' @ toString (int N) @
                  js '' requests per minute'')), E)
     else (Inr (), E\<lparr>RATE_LIMIT := (RATE_LIMIT E)\<lparr>entries :=
             (entries (RATE_LIMIT E))(js ''rate_limit:'' @ deviceId \<mapsto> (recent @ [now], 3600))\<rparr>\<rparr>))"
  using assms
  by (auto simp: checkRateLimit_def kv_get_def kv_put_def storedRequests_def Let_def
      split: option.splits)

lemma checkRateLimit_all_ok:
  assumes "online (RATE_LIMIT E)" and "parseInt (RATE_LIMIT_PER_MINUTE E) = Num (int N)"
      and "storedRequests E deviceId = old @ pre"
      and "\<forall>e\<in>set old. \<forall>a\<in>set ts. e \<le> a - 60000"
      and "\<forall>e\<in>set pre. \<forall>a\<in>set ts. e > a - 60000"
      and "\<forall>a\<in>set ts. \<forall>b\<in>set ts. a - b < 60000"
      and "length pre + length ts \<le> N"
  shows "fst (checkRateLimit_all E deviceId ts) = Inr ()
       \<and> online (RATE_LIMIT (snd (checkRateLimit_all E deviceId ts)))
       \<and> RATE_LIMIT_PER_MINUTE (snd (checkRateLimit_all E deviceId ts)) = RATE_LIMIT_PER_MINUTE E
       \<and> storedRequests (snd (checkRateLimit_all E deviceId ts)) deviceId
           = (if ts = [] then old @ pre else pre @ ts)"
  using assms
proof (induction ts arbitrary: E old pre)
  case Nil
  then show ?case by simp
next
  case (Cons a rest)
  let ?E1 = "E\<lparr>RATE_LIMIT := (RATE_LIMIT E)\<lparr>entries :=
             (entries (RATE_LIMIT E))(js ''rate_limit:'' @ deviceId \<mapsto> (pre @ [a], 3600))\<rparr>\<rparr>"
  have f1: "filter (\<lambda>x. x > a - 60000) old = []"
    using Cons.prems(4) by (auto simp: filter_empty_conv)
  have f2: "filter (\<lambda>x. x > a - 60000) pre = pre"
    using Cons.prems(5) by (auto simp: filter_id_conv)
  have lt: "\<not> length pre \<ge> N" using Cons.prems(7) by simp
  have step: "checkRateLimit E a deviceId = (Inr (), ?E1)"
    using lt by (simp add: checkRateLimit_step [OF Cons.prems(1,2)] Cons.prems(3) f1 f2 Let_def)
  have s1: "storedRequests ?E1 deviceId = [] @ (pre @ [a])"
    by (simp add: storedRequests_def)
  have ih: "fst (checkRateLimit_all ?E1 deviceId rest) = Inr ()
       \<and> online (RATE_LIMIT (snd (checkRateLimit_all ?E1 deviceId rest)))
       \<and> RATE_LIMIT_PER_MINUTE (snd (checkRateLimit_all ?E1 deviceId rest)) = RATE_LIMIT_PER_MINUTE ?E1
       \<and> storedRequests (snd (checkRateLimit_all ?E1 deviceId rest)) deviceId
           = (if rest = [] then [] @ (pre @ [a]) else (pre @ [a]) @ rest)"
  proof (rule Cons.IH [OF _ _ s1])
    show "online (RATE_LIMIT ?E1)" using Cons.prems(1) by simp
    show "parseInt (RATE_LIMIT_PER_MINUTE ?E1) = Num (int N)" using Cons.prems(2) by simp
    show "\<forall>e\<in>set []. \<forall>a\<in>set rest. e \<le> a - 60000" by simp
    show "\<forall>e\<in>set (pre @ [a]). \<forall>b\<in>set rest. e > b - 60000"
      using Cons.prems(5,6) by fastforce
    show "\<forall>x\<in>set rest. \<forall>b\<in>set rest. x - b < 60000" using Cons.prems(6) by simp
    show "length (pre @ [a]) + length rest \<le> N" using Cons.prems(7) by simp
  qed
  then show ?case by (simp add: step)
qed

lemma test_ceiling: "parseInt (RATE_LIMIT_PER_MINUTE test_env) = Num (int 2)"
  unfolding test_env_def env.simps by code_simp

text \<open>
  Claim C3. With a ceiling that reads as the number \<open>N\<close> and no earlier request recorded
  inside the window, \<open>N\<close> calls of \<^verbatim>\<open>checkRateLimit\<close> at times \<open>ts\<close> that lie within a
  60-second span all succeed; a further call at a time \<open>t\<close> of the same span throws
  \<^verbatim>\<open>RateLimitError\<close> and leaves the environment, the stored window included, as it
  was; and a call at a time \<open>t'\<close> at which the oldest recorded timestamp is more than
  60 seconds old succeeds again.
\<close>

theorem checkRateLimit_ceiling:
  assumes cfg: "parseInt (RATE_LIMIT_PER_MINUTE E) = Num (int N)"
      and on: "online (RATE_LIMIT E)"
      and old: "\<forall>e\<in>set (storedRequests E deviceId). \<forall>a\<in>set (ts @ [t]). e \<le> a - 60000"
      and len: "length ts = N"
      and span: "\<forall>a\<in>set (ts @ [t]). \<forall>b\<in>set (ts @ [t]). a - b < 60000"
  shows "fst (checkRateLimit_all E deviceId ts) = Inr ()
       \<and> checkRateLimit (snd (checkRateLimit_all E deviceId ts)) t deviceId
           = (Inl (RateLimitError (js ''Rate limit exceeded: '' @ toString (int N) @
                     js '' requests per minute'')),
              snd (checkRateLimit_all E deviceId ts))
       \<and> (\<forall>t'. ts \<noteq> [] \<and> t' - Min (set ts) > 60000 \<longrightarrow>
             fst (checkRateLimit (snd (checkRateLimit_all E deviceId ts)) t' deviceId) = Inr ())"
proof -
  let ?E' = "snd (checkRateLimit_all E deviceId ts)"
  have ok: "fst (checkRateLimit_all E deviceId ts) = Inr ()
       \<and> online (RATE_LIMIT ?E')
       \<and> RATE_LIMIT_PER_MINUTE ?E' = RATE_LIMIT_PER_MINUTE E
       \<and> storedRequests ?E' deviceId
           = (if ts = [] then storedRequests E deviceId @ [] else [] @ ts)"
  proof (rule checkRateLimit_all_ok [OF on cfg])
    show "storedRequests E deviceId = storedRequests E deviceId @ []" by simp
    show "\<forall>e\<in>set (storedRequests E deviceId). \<forall>a\<in>set ts. e \<le> a - 60000" using old by simp
    show "\<forall>e\<in>set []. \<forall>a\<in>set ts. e > a - 60000" by simp
    show "\<forall>a\<in>set ts. \<forall>b\<in>set ts. a - b < 60000" using span by simp
    show "length [] + length ts \<le> N" using len by simp
  qed
  then have on': "online (RATE_LIMIT ?E')"
    and cfg': "parseInt (RATE_LIMIT_PER_MINUTE ?E') = Num (int N)"
    and st: "storedRequests ?E' deviceId = (if ts = [] then storedRequests E deviceId else ts)"
    using cfg by simp_all
  have keep: "filter (\<lambda>x. x > t - 60000) ts = ts"
  proof -
    have "\<forall>x\<in>set ts. x > t - 60000"
    proof
      fix x assume "x \<in> set ts"
      then have "t - x < 60000" using span by simp
      then show "x > t - 60000" by simp
    qed
    then show ?thesis by (simp add: filter_id_conv)
  qed
  have rej: "length (filter (\<lambda>x. x > t - 60000) (storedRequests ?E' deviceId)) \<ge> N"
  proof (cases "ts = []")
    case True
    then show ?thesis using len by simp
  next
    case False
    then show ?thesis using st len keep by simp
  qed
  have acc: "length (filter (\<lambda>x. x > t' - 60000) (storedRequests ?E' deviceId)) < N"
    if ne: "ts \<noteq> []" and aged: "t' - Min (set ts) > 60000" for t'
  proof -
    have m: "Min (set ts) \<in> set ts" using ne by (simp add: Min_in)
    have n: "\<not> Min (set ts) > t' - 60000" using aged by simp
    have "length (filter (\<lambda>x. x > t' - 60000) ts) < length ts"
      using m n by (rule length_filter_less)
    then show ?thesis using ne st len by simp
  qed
  have c1: "fst (checkRateLimit_all E deviceId ts) = Inr ()" using ok by simp
  have c2: "checkRateLimit ?E' t deviceId
           = (Inl (RateLimitError (js ''Rate limit exceeded: '' @ toString (int N) @
                     js '' requests per minute'')), ?E')"
    using rej by (simp add: checkRateLimit_step [OF on' cfg'] Let_def)
  have c3: "fst (checkRateLimit ?E' t' deviceId) = Inr ()"
    if "ts \<noteq> [] \<and> t' - Min (set ts) > 60000" for t'
  proof -
    have "\<not> length (filter (\<lambda>x. x > t' - 60000) (storedRequests ?E' deviceId)) \<ge> N"
      using acc [of t'] that by simp
    then show ?thesis by (simp add: checkRateLimit_step [OF on' cfg'] Let_def)
  qed
  show ?thesis using c1 c2 c3 by blast
qed

theorem checkRateLimit_ceiling_witness:
  "fst (checkRateLimit_all test_env (js ''dev-1'') [1700000000000, 1700000030000]) = Inr ()
   \<and> checkRateLimit (snd (checkRateLimit_all test_env (js ''dev-1'') [1700000000000, 1700000030000]))
        1700000059999 (js ''dev-1'')
       = (Inl (RateLimitError (js ''Rate limit exceeded: 2 requests per minute'')),
          snd (checkRateLimit_all test_env (js ''dev-1'') [1700000000000, 1700000030000]))
   \<and> fst (checkRateLimit (snd (checkRateLimit_all test_env (js ''dev-1'') [1700000000000, 1700000030000]))
        1700000060001 (js ''dev-1'')) = Inr ()"
proof -
  have on: "online (RATE_LIMIT test_env)" by (simp add: test_env_def)
  have old: "\<forall>e\<in>set (storedRequests test_env (js ''dev-1'')).
      \<forall>a\<in>set ([1700000000000, 1700000030000] @ [1700000059999]). e \<le> a - 60000"
    by (simp add: storedRequests_def test_env_def)
  have len: "length [1700000000000, 1700000030000 :: int] = 2" by simp
  have span: "\<forall>a\<in>set ([1700000000000, 1700000030000] @ [1700000059999 :: int]).
      \<forall>b\<in>set ([1700000000000, 1700000030000] @ [1700000059999]). a - b < 60000"
    by simp
  have two: "toString (int 2) = js ''2''"
    by (simp add: toString_def digits.simps js_def)
  show ?thesis
    using checkRateLimit_ceiling [OF test_ceiling on old len span] two
    by (simp add: js_def)
qed

subsection \<open>The device registry\<close>

lemma storeDeviceInfo_online:
  assumes "online (CACHE E)"
  shows "storeDeviceInfo E d =
    (Inr (), E\<lparr>CACHE := (CACHE E)\<lparr>entries :=
       (entries (CACHE E))(js ''device:'' @ device_id d \<mapsto> (d, 86400 * 30))\<rparr>\<rparr>)"
  using assms by (simp add: storeDeviceInfo_def kv_put_def)

lemma getDeviceInfo_after_store:
  assumes "online (CACHE E)"
  shows "getDeviceInfo (snd (storeDeviceInfo E d)) k =
    (if k = device_id d then Inr (Some d) else getDeviceInfo E k)"
  using assms by (simp add: storeDeviceInfo_online getDeviceInfo_def kv_get_def)

lemma getDeviceInfo_online: "getDeviceInfo E k = Inr r \<Longrightarrow> online (CACHE E)"
  by (simp add: getDeviceInfo_def kv_get_def split: if_splits)

text \<open>
  Claim C8. \<^verbatim>\<open>updateDeviceLastSeen\<close> on an identifier without a record returns without an
  error and leaves the environment as it was. On a registered identifier (a record
  stored under its own \<open>device_id\<close>, as \<^verbatim>\<open>registerDevice\<close> stores it) it writes the
  record back with \<open>request_count\<close> one higher and \<open>last_seen\<close> at the current time;
  \<open>device_id\<close>, \<open>key_seed\<close>, \<open>registered_at\<close> and \<open>device_info\<close> keep their values,
  and no other record and no rate window changes.
\<close>

theorem updateDeviceLastSeen_effect:
  "(getDeviceInfo E deviceId = Inr None \<longrightarrow> updateDeviceLastSeen E now deviceId = (Inr (), E))
   \<and> (\<forall>d. getDeviceInfo E deviceId = Inr (Some d) \<and> device_id d = deviceId \<longrightarrow>
         fst (updateDeviceLastSeen E now deviceId) = Inr ()
         \<and> (\<exists>d'. getDeviceInfo (snd (updateDeviceLastSeen E now deviceId)) deviceId = Inr (Some d')
                \<and> request_count d' = request_count d + 1
                \<and> last_seen d' = ISOString now
                \<and> device_id d' = device_id d
                \<and> key_seed d' = key_seed d
                \<and> registered_at d' = registered_at d
                \<and> device_info d' = device_info d)
         \<and> (\<forall>other. other \<noteq> deviceId \<longrightarrow>
               getDeviceInfo (snd (updateDeviceLastSeen E now deviceId)) other
                 = getDeviceInfo E other)
         \<and> RATE_LIMIT (snd (updateDeviceLastSeen E now deviceId)) = RATE_LIMIT E)"
proof (intro conjI allI impI)
  assume "getDeviceInfo E deviceId = Inr None"
  then show "updateDeviceLastSeen E now deviceId = (Inr (), E)"
    by (simp add: updateDeviceLastSeen_def)
next
  fix d
  assume a: "getDeviceInfo E deviceId = Inr (Some d) \<and> device_id d = deviceId"
  let ?d' = "d\<lparr>last_seen := ISOString now, request_count := request_count d + 1\<rparr>"
  have on: "online (CACHE E)" using a getDeviceInfo_online by blast
  have u: "updateDeviceLastSeen E now deviceId = storeDeviceInfo E ?d'"
    using a by (simp add: updateDeviceLastSeen_def)
  show "fst (updateDeviceLastSeen E now deviceId) = Inr ()"
    by (simp add: u storeDeviceInfo_online [OF on])
  have "getDeviceInfo (snd (updateDeviceLastSeen E now deviceId)) deviceId = Inr (Some ?d')"
    using a by (simp add: u getDeviceInfo_after_store [OF on])
  then show "\<exists>d'. getDeviceInfo (snd (updateDeviceLastSeen E now deviceId)) deviceId = Inr (Some d')
                \<and> request_count d' = request_count d + 1
                \<and> last_seen d' = ISOString now
                \<and> device_id d' = device_id d
                \<and> key_seed d' = key_seed d
                \<and> registered_at d' = registered_at d
                \<and> device_info d' = device_info d"
    by simp
  show "RATE_LIMIT (snd (updateDeviceLastSeen E now deviceId)) = RATE_LIMIT E"
    by (simp add: u storeDeviceInfo_online [OF on])
  fix other
  assume "other \<noteq> deviceId"
  then show "getDeviceInfo (snd (updateDeviceLastSeen E now deviceId)) other = getDeviceInfo E other"
    using a by (simp add: u getDeviceInfo_after_store [OF on])
qed

theorem updateDeviceLastSeen_effect_witness:
  "updateDeviceLastSeen test_env 1700000123456 (js ''ghost'') = (Inr (), test_env)
   \<and> fst (updateDeviceLastSeen test_env 1700000123456 (js ''dev-1'')) = Inr ()
   \<and> getDeviceInfo (snd (updateDeviceLastSeen test_env 1700000123456 (js ''dev-1''))) (js ''dev-1'')
       = Inr (Some (test_device\<lparr>last_seen := ISOString 1700000123456, request_count := 1\<rparr>))"
proof -
  have g: "getDeviceInfo test_env (js ''ghost'') = Inr None"
    by (simp add: getDeviceInfo_def kv_get_def test_env_def js_def)
  have r: "getDeviceInfo test_env (js ''dev-1'') = Inr (Some test_device)
           \<and> device_id test_device = js ''dev-1''"
    by (simp add: test_registered test_device_def)
  have "\<exists>d'. getDeviceInfo (snd (updateDeviceLastSeen test_env 1700000123456 (js ''dev-1''))) (js ''dev-1'')
          = Inr (Some d')
        \<and> request_count d' = request_count test_device + 1
        \<and> last_seen d' = ISOString 1700000123456
        \<and> device_id d' = device_id test_device
        \<and> key_seed d' = key_seed test_device
        \<and> registered_at d' = registered_at test_device
        \<and> device_info d' = device_info test_device"
    using updateDeviceLastSeen_effect [of test_env "js ''dev-1''" 1700000123456] r by blast
  then obtain d' where
    d: "getDeviceInfo (snd (updateDeviceLastSeen test_env 1700000123456 (js ''dev-1''))) (js ''dev-1'')
          = Inr (Some d')"
       "request_count d' = request_count test_device + 1"
       "last_seen d' = ISOString 1700000123456"
       "device_id d' = device_id test_device"
       "key_seed d' = key_seed test_device"
       "registered_at d' = registered_at test_device"
       "device_info d' = device_info test_device"
    by blast
  have "d' = test_device\<lparr>last_seen := ISOString 1700000123456, request_count := 1\<rparr>"
    using d(2-7) by (cases d') (simp add: test_device_def)
  then show ?thesis
    using d(1) g r updateDeviceLastSeen_effect [of test_env "js ''ghost''" 1700000123456]
      updateDeviceLastSeen_effect [of test_env "js ''dev-1''" 1700000123456]
    by simp
qed

subsection \<open>The device token\<close>

lemma latin1_simps [simp]:
  "latin1 []" "latin1 (c # s) = (c \<le> 0xFF \<and> latin1 s)" "latin1 (a @ b) = (latin1 a \<and> latin1 b)"
  by (auto simp: latin1_def)

lemma btoa_latin1: "latin1 s \<Longrightarrow> btoa s = Inr (base64 (map uint s))"
  by (simp add: btoa_def latin1_def)

lemma btoa_not_latin1: "\<not> latin1 s \<Longrightarrow> btoa s = Inl InvalidCharacterError"
  by (simp add: btoa_def latin1_def)

lemma of_int_latin: "0 \<le> k \<Longrightarrow> k \<le> 255 \<Longrightarrow> (of_int k :: 16 word) \<le> 0xFF"
  by (simp add: word_le_def uint_word_of_int_eq take_bit_eq_mod)

lemma js_latin [simp]: "latin1 (js s)"
  unfolding latin1_def
proof
  fix c assume "c \<in> set (js s)"
  then obtain x where c: "c = of_nat (of_char x)" by (auto simp: js_def)
  have a: "0 \<le> (of_char x :: int) mod 256" by (rule pos_mod_sign) simp
  have b: "(of_char x :: int) mod 256 < 256" by (rule pos_mod_bound) simp
  have "0 \<le> (of_char x :: int)" "(of_char x :: int) \<le> 255"
    using a b by simp_all
  then have "(of_int (of_char x) :: 16 word) \<le> 0xFF" by (rule of_int_latin)
  then show "c \<le> 0xFF" by (simp add: c of_nat_of_char of_int_of_char)
qed

lemma hexDigit_latin: "0 \<le> k \<Longrightarrow> k < 16 \<Longrightarrow> hexDigit k \<le> 0xFF"
proof (cases "k < 10")
  case True
  assume "0 \<le> k"
  then have "(of_int (0x30 + k) :: 16 word) \<le> 0xFF"
    by (intro of_int_latin) (use True in simp_all)
  then show ?thesis using True by (simp add: hexDigit_def)
next
  case False
  assume "k < 16"
  then have "(of_int (0x61 + (k - 10)) :: 16 word) \<le> 0xFF"
    by (intro of_int_latin) (use False in simp_all)
  then show ?thesis using False by (simp add: hexDigit_def)
qed

lemma digits_latin: "0 \<le> n \<Longrightarrow> latin1 (digits n)"
proof (induction n rule: digits.induct)
  case (1 n)
  show ?case
  proof (cases "n < 10")
    case True
    have "(of_int (0x30 + n) :: 16 word) \<le> 0xFF"
      by (rule of_int_latin) (use "1.prems" True in simp_all)
    then show ?thesis using True by (subst digits.simps) simp
  next
    case False
    have "0 \<le> n div 10" using "1.prems" by simp
    then have ih: "latin1 (digits (n div 10))" using "1.IH" False by simp
    have "0 \<le> n mod 10" "n mod 10 < 10" by simp_all
    then have "(of_int (0x30 + n mod 10) :: 16 word) \<le> 0xFF"
      by (intro of_int_latin) simp_all
    then show ?thesis using ih False by (subst digits.simps) simp
  qed
qed

lemma toString_latin [simp]: "latin1 (toString n)"
  using digits_latin [of n] digits_latin [of "- n"] by (simp add: toString_def)

lemma unicodeEscape_latin: "latin1 (unicodeEscape u)"
proof -
  have lt: "uint u < 65536" using uint_lt2p [of u] by simp
  have ge: "0 \<le> uint u" by simp
  have "0 \<le> uint u div 4096" using ge by (simp add: pos_imp_zdiv_nonneg_iff)
  moreover have "uint u div 4096 < 16" using lt by presburger
  ultimately have "hexDigit (uint u div 4096) \<le> 0xFF"
    by (rule hexDigit_latin)
  moreover have "hexDigit (uint u div 256 mod 16) \<le> 0xFF"
    by (rule hexDigit_latin) simp_all
  moreover have "hexDigit (uint u div 16 mod 16) \<le> 0xFF"
    by (rule hexDigit_latin) simp_all
  moreover have "hexDigit (uint u mod 16) \<le> 0xFF"
    by (rule hexDigit_latin) simp_all
  ultimately show ?thesis by (simp add: unicodeEscape_def)
qed

lemma quoteUnit_latin: "c \<le> 0xFF \<Longrightarrow> latin1 (quoteUnit c)"
  using unicodeEscape_latin [of c] by (simp add: quoteUnit_def)

lemma quoteUnits_latin: "latin1 s \<Longrightarrow> latin1 (quoteUnits s)"
proof (induction s rule: quoteUnits.induct)
  case 1
  then show ?case by simp
next
  case (2 c)
  then show ?case using quoteUnit_latin [of c] by simp
next
  case (3 c d cs)
  show ?case
  proof (cases "isHigh c \<and> isLow d")
    case True
    then show ?thesis using 3 by simp
  next
    case False
    then show ?thesis using 3 quoteUnit_latin [of c] by simp
  qed
qed

lemma QuoteJSONString_latin: "latin1 s \<Longrightarrow> latin1 (QuoteJSONString s)"
  by (simp add: QuoteJSONString_def quoteUnits_latin)

lemma stringify_payload_latin: "latin1 d \<Longrightarrow> latin1 (stringify_payload d i x)"
  by (simp add: stringify_payload_def QuoteJSONString_latin)

lemma generateDeviceToken_Some:
  assumes latin: "latin1 deviceId"
      and sign: "subtle_sign P (encode (JWT_SECRET E))
                   (encode (stringify_payload deviceId now (now + 2592000000))) = Some s"
  shows "generateDeviceToken P E now deviceId =
           Inr (base64 (map uint (stringify_payload deviceId now (now + 2592000000)))
                @ js ''.'' @ base64 (map uint (Uint8Array s)))"
  using sign
  by (simp add: generateDeviceToken_def Let_def btoa_bytes
      btoa_latin1 [OF stringify_payload_latin [OF latin]])

lemma generateDeviceToken_not_latin:
  assumes "\<not> latin1 (stringify_payload deviceId now (now + 2592000000))"
  shows "\<exists>e. generateDeviceToken P E now deviceId = Inl e"
  using assms
  by (simp add: generateDeviceToken_def Let_def btoa_bytes btoa_not_latin1 split: option.splits)

lemma test_payload:
  \<open>stringify_payload (js ''dev-1'') 1700000000000 1702592000000 =
     js ''{"device_id":"dev-1","issued_at":1700000000000,"expires_at":1702592000000}''\<close>
  by code_simp

lemma test_payload_base64:
  "base64 (map uint (stringify_payload (js ''dev-1'') 1700000000000 1702592000000)) =
     js ''eyJkZXZpY2VfaWQiOiJkZXYtMSIsImlzc3VlZF9hdCI6MTcwMDAwMDAwMDAwMCwiZXhwaXJlc19hdCI6MTcwMjU5MjAwMDAwMH0=''"
  by code_simp

lemma test_token_sign:
  "subtle_sign test_platform (encode (JWT_SECRET test_env))
     (encode (stringify_payload (js ''dev-1'') 1700000000000 (1700000000000 + 2592000000))) =
   Some 1002652967386045058917663728551606396775115271850036542455431416007373403617"
  by (simp add: test_payload)
     (simp add: test_platform_def test_env_def js_def isHigh_def isLow_def utf8_def fingerprint_def)

lemma test_token_signature_base64:
  "base64 (map uint (Uint8Array 1002652967386045058917663728551606396775115271850036542455431416007373403617))
    = js ''Ajd7QYlNIL6f1A0SGyzWVUI9Fnmgmi2xcVIgWztkteE=''"
  by code_simp

lemma test_token:
  "generateDeviceToken test_platform test_env 1700000000000 (js ''dev-1'') =
     Inr (js ''eyJkZXZpY2VfaWQiOiJkZXYtMSIsImlzc3VlZF9hdCI6MTcwMDAwMDAwMDAwMCwiZXhwaXJlc19hdCI6MTcwMjU5MjAwMDAwMH0=''
          @ js ''.'' @ js ''Ajd7QYlNIL6f1A0SGyzWVUI9Fnmgmi2xcVIgWztkteE='')"
  using generateDeviceToken_Some [OF js_latin test_token_sign]
  by (simp add: test_payload_base64 test_token_signature_base64)

lemma test_token_sign_base64:
  "subtle_sign test_platform (encode (JWT_SECRET test_env))
     (encode (js ''eyJkZXZpY2VfaWQiOiJkZXYtMSIsImlzc3VlZF9hdCI6MTcwMDAwMDAwMDAwMCwiZXhwaXJlc19hdCI6MTcwMjU5MjAwMDAwMH0='')) =
   Some 18530825809070883708367902225281511091618236389849081350835826768773297561791"
  by (simp add: test_platform_def test_env_def js_def isHigh_def isLow_def utf8_def fingerprint_def)

lemma test_claimed_signature_base64:
  "base64 (map uint (Uint8Array 18530825809070883708367902225281511091618236389849081350835826768773297561791))
    = js ''KPgTYq7oHiWBhmhXIWD4MGRFof5kuSD/mdLRy5a1YL8=''"
  by code_simp

text \<open>
  Claim C5, as amended. For a device identifier of code units up to \<open>0xFF\<close> and an HMAC
  call that succeeds, the token of \<^verbatim>\<open>generateDeviceToken\<close> is the base64 text of the
  JSON payload \<^verbatim>\<open>{device_id, issued_at: now, expires_at: now + 30 days}\<close>, one \<^verbatim>\<open>.\<close>, and
  the base64 text of the HMAC-SHA256, keyed by \<^verbatim>\<open>JWT_SECRET\<close>, of the UTF-8 bytes of the
  JSON payload text itself. The HMAC is not taken over the base64 text of the payload:
  \<open>token_over_base64_counterexample\<close> shows the two tokens apart.
\<close>

theorem generateDeviceToken_format:
  assumes latin: "latin1 deviceId"
      and sign: "subtle_sign P (encode (JWT_SECRET E))
                   (encode (stringify_payload deviceId now (now + 2592000000))) = Some s"
  shows "generateDeviceToken P E now deviceId =
           Inr (base64 (map uint (stringify_payload deviceId now (now + 2592000000)))
                @ js ''.'' @ base64 (map uint (Uint8Array s)))"
  using latin sign by (rule generateDeviceToken_Some)

theorem generateDeviceToken_format_witness:
  "latin1 (js ''dev-1'')
   \<and> generateDeviceToken test_platform test_env 1700000000000 (js ''dev-1'') =
       Inr (js ''eyJkZXZpY2VfaWQiOiJkZXYtMSIsImlzc3VlZF9hdCI6MTcwMDAwMDAwMDAwMCwiZXhwaXJlc19hdCI6MTcwMjU5MjAwMDAwMH0=''
            @ js ''.'' @ js ''Ajd7QYlNIL6f1A0SGyzWVUI9Fnmgmi2xcVIgWztkteE='')"
  using generateDeviceToken_format [OF js_latin test_token_sign]
  by (simp add: test_payload_base64 test_token_signature_base64)

theorem token_over_base64_counterexample:
  "generateDeviceToken test_platform test_env 1700000000000 (js ''dev-1'') =
     Inr (js ''eyJkZXZpY2VfaWQiOiJkZXYtMSIsImlzc3VlZF9hdCI6MTcwMDAwMDAwMDAwMCwiZXhwaXJlc19hdCI6MTcwMjU5MjAwMDAwMH0=''
          @ js ''.'' @ js ''Ajd7QYlNIL6f1A0SGyzWVUI9Fnmgmi2xcVIgWztkteE='')
   \<and> token_over_base64 test_platform test_env 1700000000000 (js ''dev-1'') =
     Inr (js ''eyJkZXZpY2VfaWQiOiJkZXYtMSIsImlzc3VlZF9hdCI6MTcwMDAwMDAwMDAwMCwiZXhwaXJlc19hdCI6MTcwMjU5MjAwMDAwMH0=''
          @ js ''.'' @ js ''KPgTYq7oHiWBhmhXIWD4MGRFof5kuSD/mdLRy5a1YL8='')
   \<and> generateDeviceToken test_platform test_env 1700000000000 (js ''dev-1'')
       \<noteq> token_over_base64 test_platform test_env 1700000000000 (js ''dev-1'')"
proof -
  have lat: "latin1 (stringify_payload (js ''dev-1'') 1700000000000 1702592000000)"
    by (rule stringify_payload_latin) simp
  have c: "token_over_base64 test_platform test_env 1700000000000 (js ''dev-1'') =
     Inr (js ''eyJkZXZpY2VfaWQiOiJkZXYtMSIsImlzc3VlZF9hdCI6MTcwMDAwMDAwMDAwMCwiZXhwaXJlc19hdCI6MTcwMjU5MjAwMDAwMH0=''
          @ js ''.'' @ js ''KPgTYq7oHiWBhmhXIWD4MGRFof5kuSD/mdLRy5a1YL8='')"
    by (simp add: token_over_base64_def btoa_latin1 [OF lat] test_payload_base64
        test_token_sign_base64 btoa_bytes test_claimed_signature_base64)
  have ne: "js ''Ajd7QYlNIL6f1A0SGyzWVUI9Fnmgmi2xcVIgWztkteE=''
    \<noteq> js ''KPgTYq7oHiWBhmhXIWD4MGRFof5kuSD/mdLRy5a1YL8=''"
    by (simp add: js_def)
  show ?thesis using test_token c ne by simp
qed

subsection \<open>Registration\<close>

lemma length_base64: "length (base64 xs) = 4 * ((length xs + 2) div 3)"
proof (induction xs rule: base64.induct)
  case (4 a b c rest)
  have "(length rest + 5) div 3 = Suc ((length rest + 2) div 3)" by presburger
  then show ?case using 4 by (simp add: add.commute)
qed simp_all

lemma length_Uint8Array: "length (Uint8Array w) = 32"
  by (simp add: Uint8Array_def)

lemma generateKeySeed_length: "generateKeySeed P E now deviceId = Inr keySeed \<Longrightarrow> length keySeed = 44"
  by (auto simp: generateKeySeed_def Let_def btoa_bytes length_base64 length_Uint8Array
      split: option.splits)

lemma generateKeySeed_config:
  "MASTER_KEY_SEED E' = MASTER_KEY_SEED E \<Longrightarrow> generateKeySeed P E' = generateKeySeed P E"
  by (intro ext) (simp add: generateKeySeed_def)

lemma generateDeviceToken_config:
  "JWT_SECRET E' = JWT_SECRET E \<Longrightarrow> generateDeviceToken P E' = generateDeviceToken P E"
  by (intro ext) (simp add: generateDeviceToken_def)

lemma registerDevice_success:
  assumes valid: "deviceRegistrationSchema_parse (deviceId, info) = Inr (deviceId, info)"
      and seed: "generateKeySeed P E now deviceId = Inr keySeed"
      and tok: "generateDeviceToken P E now deviceId = Inr deviceToken"
      and on: "online (CACHE E)"
  shows "registerDevice P E now later (deviceId, info) =
    ((200, JObj [(''success'', JBool True),
        (''data'', JObj [(''key_seed'', JStr keySeed),
           (''expires_at'', JDate (ISOString (later + 2592000000))),
           (''device_token'', JStr deviceToken)])]),
     E\<lparr>CACHE := (CACHE E)\<lparr>entries := (entries (CACHE E))(js ''device:'' @ deviceId \<mapsto>
        (\<lparr>device_id = deviceId, key_seed = keySeed, registered_at = ISOString now,
          last_seen = ISOString now, request_count = 0, device_info = info\<rparr>, 86400 * 30))\<rparr>\<rparr>)"
  by (simp add: registerDevice_def valid seed tok Let_def storeDeviceInfo_online [OF on])

lemma registerDevice_success_lookup:
  assumes valid: "deviceRegistrationSchema_parse (deviceId, info) = Inr (deviceId, info)"
      and seed: "generateKeySeed P E now deviceId = Inr keySeed"
      and tok: "generateDeviceToken P E now deviceId = Inr deviceToken"
      and on: "online (CACHE E)"
  shows "fst (fst (registerDevice P E now later (deviceId, info))) = 200"
    and "getDeviceInfo (snd (registerDevice P E now later (deviceId, info))) deviceId
           = Inr (Some \<lparr>device_id = deviceId, key_seed = keySeed, registered_at = ISOString now,
                last_seen = ISOString now, request_count = 0, device_info = info\<rparr>)"
    and "online (CACHE (snd (registerDevice P E now later (deviceId, info))))"
    and "MASTER_KEY_SEED (snd (registerDevice P E now later (deviceId, info))) = MASTER_KEY_SEED E"
    and "JWT_SECRET (snd (registerDevice P E now later (deviceId, info))) = JWT_SECRET E"
  using on
  by (simp_all add: registerDevice_success [OF valid seed tok on] getDeviceInfo_def kv_get_def)

lemma generateKeySeed_Some:
  assumes "subtle_sign P (encode (MASTER_KEY_SEED E))
      (encode (MASTER_KEY_SEED E @ js '':'' @ deviceId @ js '':'' @ toString now)) = Some s"
  shows "generateKeySeed P E now deviceId = Inr (base64 (map uint (Uint8Array s)))"
  using assms by (simp add: generateKeySeed_def Let_def btoa_bytes)

lemma seedData_differs:
  assumes "now' \<noteq> now"
  shows "encode (master @ js '':'' @ deviceId @ js '':'' @ toString now')
       \<noteq> encode (master @ js '':'' @ deviceId @ js '':'' @ toString now)"
proof -
  have "toString now' \<noteq> toString now" using assms toString_inj by blast
  then have "encode ((master @ js '':'' @ deviceId @ js '':'') @ toString now')
      \<noteq> encode ((master @ js '':'' @ deviceId @ js '':'') @ toString now)"
    by (rule encode_suffix_neq [OF toString_ascii toString_ascii])
  then show ?thesis by simp
qed

lemma generateDeviceToken_not_latin1:
  assumes "\<not> latin1 (stringify_payload deviceId now (now + 2592000000))"
      and "subtle_sign P (encode (JWT_SECRET E))
             (encode (stringify_payload deviceId now (now + 2592000000))) = Some s"
  shows "generateDeviceToken P E now deviceId = Inl InvalidCharacterError"
  using assms
  by (simp add: generateDeviceToken_def Let_def btoa_bytes btoa_not_latin1)

text \<open>
  Claim C7, as amended. For a registration request that passes the schema, with a
  device identifier that \<^verbatim>\<open>btoa\<close> accepts, the \<^verbatim>\<open>CACHE\<close> namespace available and the
  HMAC calls of the platform succeeding, \<^verbatim>\<open>registerDevice\<close> answers 200 and a lookup of
  the identifier afterwards returns a record with the supplied \<open>device_info\<close>, a
  non-empty \<open>key_seed\<close> and \<open>request_count = 0\<close>, whether or not a record was stored
  for the identifier before. Registering the identifier again answers 200 as well
  and replaces the record by one with the same \<open>device_id\<close>. Its \<open>key_seed\<close> differs
  from the first when the two registrations read different clock values (and the
  HMAC does not collide on the two seed strings); it is the same when they read the
  same clock value.
\<close>

theorem registerDevice_reregistration:
  assumes valid: "deviceRegistrationSchema_parse (deviceId, info) = Inr (deviceId, info)"
      and valid': "deviceRegistrationSchema_parse (deviceId, info') = Inr (deviceId, info')"
      and lat: "latin1 deviceId"
      and on: "online (CACHE E)"
      and seed: "\<forall>t\<in>{now, now'}. subtle_sign P (encode (MASTER_KEY_SEED E))
                  (encode (MASTER_KEY_SEED E @ js '':'' @ deviceId @ js '':'' @ toString t)) \<noteq> None"
      and tok: "\<forall>t\<in>{now, now'}. subtle_sign P (encode (JWT_SECRET E))
                  (encode (stringify_payload deviceId t (t + 2592000000))) \<noteq> None"
  shows "fst (fst (registerDevice P E now later (deviceId, info))) = 200
       \<and> (\<exists>r. getDeviceInfo (snd (registerDevice P E now later (deviceId, info))) deviceId
                 = Inr (Some r)
            \<and> device_id r = deviceId \<and> device_info r = info
            \<and> key_seed r \<noteq> [] \<and> request_count r = 0
            \<and> fst (fst (registerDevice P (snd (registerDevice P E now later (deviceId, info)))
                          now' later' (deviceId, info'))) = 200
            \<and> (\<exists>r'. getDeviceInfo
                       (snd (registerDevice P (snd (registerDevice P E now later (deviceId, info)))
                          now' later' (deviceId, info'))) deviceId = Inr (Some r')
                  \<and> device_id r' = deviceId \<and> device_info r' = info'
                  \<and> key_seed r' \<noteq> [] \<and> request_count r' = 0
                  \<and> (now' = now \<longrightarrow> key_seed r' = key_seed r)
                  \<and> (now' \<noteq> now \<longrightarrow>
                       no_collision (subtle_sign P (encode (MASTER_KEY_SEED E)))
                         (encode (MASTER_KEY_SEED E @ js '':'' @ deviceId @ js '':'' @ toString now))
                         (encode (MASTER_KEY_SEED E @ js '':'' @ deviceId @ js '':'' @ toString now'))
                       \<longrightarrow> key_seed r' \<noteq> key_seed r)))"
proof -
  let ?seed = "\<lambda>t. encode (MASTER_KEY_SEED E @ js '':'' @ deviceId @ js '':'' @ toString t)"
  let ?E1 = "snd (registerDevice P E now later (deviceId, info))"
  let ?E2 = "snd (registerDevice P ?E1 now' later' (deviceId, info'))"
  obtain s where s: "subtle_sign P (encode (MASTER_KEY_SEED E)) (?seed now) = Some s"
    using seed by auto
  obtain s' where s': "subtle_sign P (encode (MASTER_KEY_SEED E)) (?seed now') = Some s'"
    using seed by auto
  obtain u where u: "subtle_sign P (encode (JWT_SECRET E))
      (encode (stringify_payload deviceId now (now + 2592000000))) = Some u"
    using tok by auto
  obtain u' where u': "subtle_sign P (encode (JWT_SECRET E))
      (encode (stringify_payload deviceId now' (now' + 2592000000))) = Some u'"
    using tok by auto
  let ?k = "base64 (map uint (Uint8Array s))" and ?k' = "base64 (map uint (Uint8Array s'))"
  let ?r = "\<lparr>device_id = deviceId, key_seed = ?k, registered_at = ISOString now,
             last_seen = ISOString now, request_count = 0, device_info = info\<rparr>"
  let ?r' = "\<lparr>device_id = deviceId, key_seed = ?k', registered_at = ISOString now',
              last_seen = ISOString now', request_count = 0, device_info = info'\<rparr>"
  note k = generateKeySeed_Some [OF s] and k' = generateKeySeed_Some [OF s']
  note t = generateDeviceToken_Some [OF lat u] and t' = generateDeviceToken_Some [OF lat u']
  note first = registerDevice_success_lookup [OF valid k t on, of later]
  have k1: "generateKeySeed P ?E1 now' deviceId = Inr ?k'"
    using k' generateKeySeed_config [OF first(4)] by simp
  have t1: "generateDeviceToken P ?E1 now' deviceId = generateDeviceToken P E now' deviceId"
    using generateDeviceToken_config [OF first(5)] by simp
  note second = registerDevice_success_lookup(1,2) [OF valid' k1 t1 [unfolded t'] first(3), of later']
  have ne: "?k \<noteq> []" using generateKeySeed_length [OF k] by auto
  have ne': "?k' \<noteq> []" using generateKeySeed_length [OF k'] by auto
  have same: "now' = now \<longrightarrow> ?k' = ?k" using s s' by auto
  have diff: "?k' \<noteq> ?k"
    if d: "now' \<noteq> now"
      and nc: "no_collision (subtle_sign P (encode (MASTER_KEY_SEED E))) (?seed now) (?seed now')"
  proof -
    have "?seed now' \<noteq> ?seed now" by (rule seedData_differs [OF d])
    then have "s' \<noteq> s" using nc s s' by (auto simp: no_collision_def)
    then show ?thesis using base64_digest_inj by blast
  qed
  have r: "device_id ?r = deviceId \<and> device_info ?r = info \<and> key_seed ?r \<noteq> []
      \<and> request_count ?r = 0"
    using ne by simp
  have r': "device_id ?r' = deviceId \<and> device_info ?r' = info' \<and> key_seed ?r' \<noteq> []
      \<and> request_count ?r' = 0
      \<and> (now' = now \<longrightarrow> key_seed ?r' = key_seed ?r)
      \<and> (now' \<noteq> now \<longrightarrow>
            no_collision (subtle_sign P (encode (MASTER_KEY_SEED E))) (?seed now) (?seed now')
            \<longrightarrow> key_seed ?r' \<noteq> key_seed ?r)"
    using ne' same diff by simp
  from second(2) r' have ex': "\<exists>r'. getDeviceInfo ?E2 deviceId = Inr (Some r')
      \<and> device_id r' = deviceId \<and> device_info r' = info' \<and> key_seed r' \<noteq> []
      \<and> request_count r' = 0
      \<and> (now' = now \<longrightarrow> key_seed r' = key_seed ?r)
      \<and> (now' \<noteq> now \<longrightarrow>
            no_collision (subtle_sign P (encode (MASTER_KEY_SEED E))) (?seed now) (?seed now')
            \<longrightarrow> key_seed r' \<noteq> key_seed ?r)"
    by blast
  from first(2) r second(1) ex' have "\<exists>r. getDeviceInfo ?E1 deviceId = Inr (Some r)
      \<and> device_id r = deviceId \<and> device_info r = info \<and> key_seed r \<noteq> []
      \<and> request_count r = 0
      \<and> fst (fst (registerDevice P ?E1 now' later' (deviceId, info'))) = 200
      \<and> (\<exists>r'. getDeviceInfo ?E2 deviceId = Inr (Some r')
      \<and> device_id r' = deviceId \<and> device_info r' = info' \<and> key_seed r' \<noteq> []
      \<and> request_count r' = 0
      \<and> (now' = now \<longrightarrow> key_seed r' = key_seed r)
      \<and> (now' \<noteq> now \<longrightarrow>
            no_collision (subtle_sign P (encode (MASTER_KEY_SEED E))) (?seed now) (?seed now')
            \<longrightarrow> key_seed r' \<noteq> key_seed r))"
    by blast
  with first(1) show ?thesis by blast
qed

lemma test_valid:
  "deviceRegistrationSchema_parse (js ''dev-1'', device_info test_device)
     = Inr (js ''dev-1'', device_info test_device)"
  by (simp add: deviceRegistrationSchema_parse_def test_device_def js_def)

lemma test_seedData:
  "MASTER_KEY_SEED test_env @ js '':'' @ js ''dev-1'' @ js '':'' @ toString 1700000000000
     = js ''master:dev-1:1700000000000''"
  unfolding test_env_def env.simps by code_simp

lemma test_seedData':
  "MASTER_KEY_SEED test_env @ js '':'' @ js ''dev-1'' @ js '':'' @ toString 1700000000001
     = js ''master:dev-1:1700000000001''"
  unfolding test_env_def env.simps by code_simp

lemma test_seed_sign:
  "subtle_sign test_platform (encode (MASTER_KEY_SEED test_env)) (encode (js ''master:dev-1:1700000000000''))
     = Some 5786026166451135129757268275417427423910583403844601691013430909893793745602"
  by (simp add: test_platform_def test_env_def js_def isHigh_def isLow_def utf8_def fingerprint_def)

lemma test_seed_sign':
  "subtle_sign test_platform (encode (MASTER_KEY_SEED test_env)) (encode (js ''master:dev-1:1700000000001''))
     = Some 5786026166451135129757268275417427423910583403844601691013430909893793745603"
  by (simp add: test_platform_def test_env_def js_def isHigh_def isLow_def utf8_def fingerprint_def)

lemma test_seed_base64:
  "base64 (map uint (Uint8Array 5786026166451135129757268275417427423910583403844601691013430909893793745602))
     = js ''DMrGVnJGjrlEl48emhTq04/O+E4pF3qg+h09D/C7CsI=''"
  by code_simp

lemma test_seed_base64':
  "base64 (map uint (Uint8Array 5786026166451135129757268275417427423910583403844601691013430909893793745603))
     = js ''DMrGVnJGjrlEl48emhTq04/O+E4pF3qg+h09D/C7CsM=''"
  by code_simp

lemma test_seed:
  "generateKeySeed test_platform test_env 1700000000000 (js ''dev-1'')
     = Inr (js ''DMrGVnJGjrlEl48emhTq04/O+E4pF3qg+h09D/C7CsI='')"
  by (simp add: generateKeySeed_def Let_def test_seedData test_seed_sign btoa_bytes test_seed_base64)

lemma test_seed':
  "generateKeySeed test_platform test_env 1700000000001 (js ''dev-1'')
     = Inr (js ''DMrGVnJGjrlEl48emhTq04/O+E4pF3qg+h09D/C7CsM='')"
  by (simp add: generateKeySeed_def Let_def test_seedData' test_seed_sign' btoa_bytes test_seed_base64')

lemma test_token_ok:
  "generateDeviceToken test_platform test_env now (js ''dev-1'') =
     Inr (base64 (map uint (stringify_payload (js ''dev-1'') now (now + 2592000000))) @ js ''.'' @
          base64 (map uint (Uint8Array (fingerprint (encode (JWT_SECRET test_env) @ 0 #
            encode (stringify_payload (js ''dev-1'') now (now + 2592000000)))))))"
proof (rule generateDeviceToken_Some [OF js_latin])
  have "encode (JWT_SECRET test_env) \<noteq> []"
    by (simp add: test_env_def js_def isHigh_def isLow_def utf8_def)
  then show "subtle_sign test_platform (encode (JWT_SECRET test_env))
      (encode (stringify_payload (js ''dev-1'') now (now + 2592000000)))
    = Some (fingerprint (encode (JWT_SECRET test_env) @ 0 #
            encode (stringify_payload (js ''dev-1'') now (now + 2592000000))))"
    by (simp add: test_platform_def)
qed

lemma test_online: "online (CACHE test_env)"
  by (simp add: test_env_def)

lemma test_sign_available: "k \<noteq> [] \<Longrightarrow> subtle_sign test_platform k m \<noteq> None"
  by (simp add: test_platform_def)

lemma test_jwt_key: "encode (JWT_SECRET test_env) \<noteq> []"
  by (simp add: test_env_def js_def isHigh_def isLow_def utf8_def)

lemma test_master_key: "encode (MASTER_KEY_SEED test_env) \<noteq> []"
  by (simp add: test_env_def js_def isHigh_def isLow_def utf8_def)

theorem registerDevice_reregistration_witness:
  "fst (fst (test_registration test_env 1700000000000)) = 200
   \<and> getDeviceInfo (snd (test_registration test_env 1700000000000)) (js ''dev-1'')
       = Inr (Some \<lparr>device_id = js ''dev-1'',
            key_seed = js ''DMrGVnJGjrlEl48emhTq04/O+E4pF3qg+h09D/C7CsI='',
            registered_at = ISOString 1700000000000, last_seen = ISOString 1700000000000,
            request_count = 0, device_info = device_info test_device\<rparr>)
   \<and> fst (fst (test_registration (snd (test_registration test_env 1700000000000)) 1700000000001)) = 200
   \<and> getDeviceInfo (snd (test_registration (snd (test_registration test_env 1700000000000))
          1700000000001)) (js ''dev-1'')
       = Inr (Some \<lparr>device_id = js ''dev-1'',
            key_seed = js ''DMrGVnJGjrlEl48emhTq04/O+E4pF3qg+h09D/C7CsM='',
            registered_at = ISOString 1700000000001, last_seen = ISOString 1700000000001,
            request_count = 0, device_info = device_info test_device\<rparr>)
   \<and> (\<exists>r r'. getDeviceInfo (snd (test_registration test_env 1700000000000)) (js ''dev-1'')
                = Inr (Some r)
         \<and> getDeviceInfo (snd (test_registration (snd (test_registration test_env 1700000000000))
              1700000000001)) (js ''dev-1'') = Inr (Some r')
         \<and> device_id r' = device_id r \<and> key_seed r \<noteq> [] \<and> key_seed r' \<noteq> key_seed r)"
proof -
  let ?E1 = "snd (test_registration test_env 1700000000000)"
  let ?E2 = "snd (test_registration ?E1 1700000000001)"
  have seed: "\<forall>t\<in>{1700000000000, 1700000000001}.
      subtle_sign test_platform (encode (MASTER_KEY_SEED test_env))
        (encode (MASTER_KEY_SEED test_env @ js '':'' @ js ''dev-1'' @ js '':'' @ toString t)) \<noteq> None"
    by (simp add: test_seedData test_seedData' test_seed_sign test_seed_sign')
  have tok: "\<forall>t\<in>{1700000000000, 1700000000001}.
      subtle_sign test_platform (encode (JWT_SECRET test_env))
        (encode (stringify_payload (js ''dev-1'') t (t + 2592000000))) \<noteq> None"
    using test_sign_available [OF test_jwt_key] by blast
  have nc: "no_collision (subtle_sign test_platform (encode (MASTER_KEY_SEED test_env)))
      (encode (MASTER_KEY_SEED test_env @ js '':'' @ js ''dev-1'' @ js '':'' @ toString 1700000000000))
      (encode (MASTER_KEY_SEED test_env @ js '':'' @ js ''dev-1'' @ js '':'' @ toString 1700000000001))"
    by (simp add: no_collision_def test_seedData test_seedData' test_seed_sign test_seed_sign')
  have d: "(1700000000001::int) \<noteq> 1700000000000" by simp
  note inst = registerDevice_reregistration [OF test_valid test_valid js_latin test_online seed tok,
      of 1700000000000 1700000000001, folded test_registration_def]
  from inst obtain r r' where
      "getDeviceInfo ?E1 (js ''dev-1'') = Inr (Some r)"
      "getDeviceInfo ?E2 (js ''dev-1'') = Inr (Some r')"
      "device_id r = js ''dev-1''" "device_id r' = js ''dev-1''" "key_seed r \<noteq> []"
      "no_collision (subtle_sign test_platform (encode (MASTER_KEY_SEED test_env)))
      (encode (MASTER_KEY_SEED test_env @ js '':'' @ js ''dev-1'' @ js '':'' @ toString 1700000000000))
      (encode (MASTER_KEY_SEED test_env @ js '':'' @ js ''dev-1'' @ js '':'' @ toString 1700000000001))
       \<longrightarrow> key_seed r' \<noteq> key_seed r"
    using d by blast
  with nc have ex: "\<exists>r r'. getDeviceInfo ?E1 (js ''dev-1'') = Inr (Some r)
         \<and> getDeviceInfo ?E2 (js ''dev-1'') = Inr (Some r')
         \<and> device_id r' = device_id r \<and> key_seed r \<noteq> [] \<and> key_seed r' \<noteq> key_seed r"
    by auto
  note first = registerDevice_success_lookup [OF test_valid test_seed test_token_ok test_online,
      of 1700000000000, folded test_registration_def]
  have s1: "generateKeySeed test_platform ?E1 1700000000001 (js ''dev-1'')
      = Inr (js ''DMrGVnJGjrlEl48emhTq04/O+E4pF3qg+h09D/C7CsM='')"
    using test_seed' generateKeySeed_config [OF first(4)] by simp
  have t1: "generateDeviceToken test_platform ?E1 1700000000001 (js ''dev-1'')
      = generateDeviceToken test_platform test_env 1700000000001 (js ''dev-1'')"
    using generateDeviceToken_config [OF first(5)] by simp
  note second = registerDevice_success_lookup(1,2) [OF test_valid s1 t1 [unfolded test_token_ok] first(3),
      of 1700000000001, folded test_registration_def]
  from first(1,2) second ex show ?thesis by blast
qed

lemma test_foreign_payload:
  "\<not> latin1 (stringify_payload [0x4E2D] 1700000000000 (1700000000000 + 2592000000))"
  by code_simp

lemma test_foreign_valid:
  "deviceRegistrationSchema_parse ([0x4E2D], device_info test_device)
     = Inr ([0x4E2D], device_info test_device)"
  by (simp add: deviceRegistrationSchema_parse_def test_device_def js_def)

lemma test_foreign_registration:
  "registerDevice test_platform test_env 1700000000000 1700000000000
       ([0x4E2D], device_info test_device)
     = ((500, JObj [(''success'', JBool False), (''error'', JStr (js ''Registration failed''))]),
        test_env)"
proof -
  obtain s where s: "subtle_sign test_platform (encode (MASTER_KEY_SEED test_env))
      (encode (MASTER_KEY_SEED test_env @ js '':'' @ [0x4E2D] @ js '':'' @ toString 1700000000000))
      = Some s"
    using test_sign_available [OF test_master_key] by blast
  obtain u where u: "subtle_sign test_platform (encode (JWT_SECRET test_env))
      (encode (stringify_payload [0x4E2D] 1700000000000 (1700000000000 + 2592000000))) = Some u"
    using test_sign_available [OF test_jwt_key] by blast
  show ?thesis
    by (simp add: registerDevice_def test_foreign_valid generateKeySeed_Some [OF s]
          generateDeviceToken_not_latin1 [OF test_foreign_payload u] registration_error_def)
qed

theorem registerDevice_lookup_counterexample:
  "getDeviceInfo (snd (test_registration test_env 1700000000000)) (js ''dev-1'')
       = Inr (Some \<lparr>device_id = js ''dev-1'',
            key_seed = js ''DMrGVnJGjrlEl48emhTq04/O+E4pF3qg+h09D/C7CsI='',
            registered_at = ISOString 1700000000000, last_seen = ISOString 1700000000000,
            request_count = 0, device_info = device_info test_device\<rparr>)
   \<and> fst (fst (test_registration (snd (test_registration test_env 1700000000000)) 1700000000000)) = 200
   \<and> getDeviceInfo (snd (test_registration (snd (test_registration test_env 1700000000000))
          1700000000000)) (js ''dev-1'')
       = Inr (Some \<lparr>device_id = js ''dev-1'',
            key_seed = js ''DMrGVnJGjrlEl48emhTq04/O+E4pF3qg+h09D/C7CsI='',
            registered_at = ISOString 1700000000000, last_seen = ISOString 1700000000000,
            request_count = 0, device_info = device_info test_device\<rparr>)
   \<and> fst (fst (registerDevice test_platform test_env 1700000000000 1700000000000
          (js ''dev-2'', (device_info test_device)\<lparr>platform := js ''web''\<rparr>))) = 400
   \<and> getDeviceInfo (snd (registerDevice test_platform test_env 1700000000000 1700000000000
          (js ''dev-2'', (device_info test_device)\<lparr>platform := js ''web''\<rparr>))) (js ''dev-2'')
       = Inr None
   \<and> fst (fst (registerDevice test_platform test_env 1700000000000 1700000000000
          ([0x4E2D], device_info test_device))) = 500
   \<and> getDeviceInfo (snd (registerDevice test_platform test_env 1700000000000 1700000000000
          ([0x4E2D], device_info test_device))) [0x4E2D] = Inr None"
proof -
  let ?E1 = "snd (test_registration test_env 1700000000000)"
  note first = registerDevice_success_lookup [OF test_valid test_seed test_token_ok test_online,
      of 1700000000000, folded test_registration_def]
  have s1: "generateKeySeed test_platform ?E1 1700000000000 (js ''dev-1'')
      = Inr (js ''DMrGVnJGjrlEl48emhTq04/O+E4pF3qg+h09D/C7CsI='')"
    using test_seed generateKeySeed_config [OF first(4)] by simp
  have t1: "generateDeviceToken test_platform ?E1 1700000000000 (js ''dev-1'')
      = generateDeviceToken test_platform test_env 1700000000000 (js ''dev-1'')"
    using generateDeviceToken_config [OF first(5)] by simp
  note second = registerDevice_success_lookup(1,2) [OF test_valid s1 t1 [unfolded test_token_ok] first(3),
      of 1700000000000, folded test_registration_def]
  have web: "registerDevice test_platform test_env 1700000000000 1700000000000
          (js ''dev-2'', (device_info test_device)\<lparr>platform := js ''web''\<rparr>)
      = ((400, JObj [(''success'', JBool False), (''error'', JStr (js ''Invalid request data'')),
                     (''details'', JIssues)]), test_env)"
    by (simp add: registerDevice_def deviceRegistrationSchema_parse_def registration_error_def
          test_device_def js_def)
  have g2: "getDeviceInfo test_env (js ''dev-2'') = Inr None"
    by (simp add: getDeviceInfo_def kv_get_def test_env_def js_def)
  have g3: "getDeviceInfo test_env [0x4E2D] = Inr None"
    by (simp add: getDeviceInfo_def kv_get_def test_env_def js_def)
  show ?thesis
    using first(2) second by (simp add: web g2 g3 test_foreign_registration)
qed

subsection \<open>Member names of the responses\<close>




subsection \<open>Signed requests and changed bodies\<close>

lemma generateHMAC_Inr:
  assumes "generateHMAC P k m = Inr x"
  obtains s where "subtle_sign P (encode k) (encode m) = Some s"
    and "x = base64 (map uint (Uint8Array s))"
  using assms by (auto simp: generateHMAC_def btoa_bytes split: option.splits)

lemma verifySignature_other_body:
  assumes reg: "getDeviceInfo E deviceId = Inr (Some d)"
      and ts: "parseInt timestamp = Num t"
      and cfg: "parseInt (SIGNATURE_VALIDITY_MINUTES E) = Num m"
      and win: "\<bar>now - t\<bar> \<le> m * 60 * 1000"
      and h: "hashString P B = Inr h"
      and mac: "generateHMAC P (key_seed d) (timestamp @ deviceId @ h) = Inr signature"
      and dd: "subtle_digest P (encode B) \<noteq> subtle_digest P (encode B')"
      and ns: "\<And>h'. hashString P B' = Inr h' \<Longrightarrow>
                 encode (timestamp @ deviceId @ h) \<noteq> encode (timestamp @ deviceId @ h') \<Longrightarrow>
                 subtle_sign P (encode (key_seed d)) (encode (timestamp @ deviceId @ h))
                 \<noteq> subtle_sign P (encode (key_seed d)) (encode (timestamp @ deviceId @ h'))"
  shows "verifySignature P E now deviceId timestamp signature B' = Inr False"
proof (cases "hashString P B'")
  case (Inl e)
  then show ?thesis
    by (simp add: verifySignature_def verifySignature_try_registered [OF reg])
next
  case (Inr h')
  have hh: "h \<noteq> h'" by (rule hashString_inj [OF h Inr dd])
  have "encode ((timestamp @ deviceId) @ h) \<noteq> encode ((timestamp @ deviceId) @ h')"
    by (rule encode_suffix_neq [OF hashString_ascii [OF h] hashString_ascii [OF Inr] hh])
  then have mm: "encode (timestamp @ deviceId @ h) \<noteq> encode (timestamp @ deviceId @ h')"
    by simp
  note ss = ns [OF Inr mm]
  show ?thesis
  proof (cases "generateHMAC P (key_seed d) (timestamp @ deviceId @ h')")
    case (Inl e)
    then show ?thesis
      by (simp add: verifySignature_def verifySignature_try_registered [OF reg] Inr)
  next
    case r: (Inr expected')
    from mac obtain s where s: "subtle_sign P (encode (key_seed d)) (encode (timestamp @ deviceId @ h)) = Some s"
      and sg: "signature = base64 (map uint (Uint8Array s))" by (rule generateHMAC_Inr)
    from r obtain s' where s': "subtle_sign P (encode (key_seed d)) (encode (timestamp @ deviceId @ h')) = Some s'"
      and sg': "expected' = base64 (map uint (Uint8Array s'))" by (rule generateHMAC_Inr)
    have "s \<noteq> s'" using ss s s' by simp
    then have "signature \<noteq> expected'" using base64_digest_inj sg sg' by blast
    then show ?thesis
      using verifySignature_in_window [OF reg ts cfg win Inr r, of signature] by simp
  qed
qed

text \<open>
  Claim C1. For a registered device with secret \<open>key_seed d\<close> and a request body \<open>B\<close>:
  when the client signs the message made of the decimal timestamp string, the device
  identifier and the lower-case hexadecimal digest of \<open>B\<close>, and the timestamp lies
  within the validity window of \<open>now\<close>, \<^verbatim>\<open>verifySignature\<close> returns \<^verbatim>\<open>true\<close> for \<open>B\<close>.
  For every body \<open>B'\<close> whose bytes differ from those of \<open>B\<close> (one flipped byte is
  such a body) it returns \<^verbatim>\<open>false\<close> for the same signature, as long as the digest
  and the HMAC of the platform do not collide on the two requests.
\<close>

theorem verifySignature_round_trip:
  assumes reg: "getDeviceInfo E deviceId = Inr (Some d)"
      and cfg: "parseInt (SIGNATURE_VALIDITY_MINUTES E) = Num m"
      and win: "\<bar>now - t\<bar> \<le> m * 60 * 1000"
      and h: "hashString P B = Inr h"
      and mac: "generateHMAC P (key_seed d) (toString t @ deviceId @ h) = Inr signature"
  shows "verifySignature P E now deviceId (toString t) signature B = Inr True
       \<and> (\<forall>B'. encode B' \<noteq> encode B \<longrightarrow>
             no_collision (subtle_digest P) (encode B) (encode B') \<longrightarrow>
             (\<forall>h'. hashString P B' = Inr h' \<longrightarrow>
                no_collision (subtle_sign P (encode (key_seed d)))
                  (encode (toString t @ deviceId @ h)) (encode (toString t @ deviceId @ h'))) \<longrightarrow>
             verifySignature P E now deviceId (toString t) signature B' = Inr False)"
proof -
  have p: "parseInt (toString t) = Num t" by (rule parseInt_toString)
  have ok: "verifySignature P E now deviceId (toString t) signature B = Inr True"
    using verifySignature_in_window [OF reg p cfg win h mac, of signature] by simp
  have tam: "verifySignature P E now deviceId (toString t) signature B' = Inr False"
    if ne: "encode B' \<noteq> encode B"
      and nd: "no_collision (subtle_digest P) (encode B) (encode B')"
      and ns: "\<forall>h'. hashString P B' = Inr h' \<longrightarrow>
                no_collision (subtle_sign P (encode (key_seed d)))
                  (encode (toString t @ deviceId @ h)) (encode (toString t @ deviceId @ h'))"
    for B'
  proof (rule verifySignature_other_body [OF reg p cfg win h mac])
    show "subtle_digest P (encode B) \<noteq> subtle_digest P (encode B')"
      using nd ne by (auto simp: no_collision_def)
  next
    fix h'
    assume "hashString P B' = Inr h'"
      and "encode (toString t @ deviceId @ h) \<noteq> encode (toString t @ deviceId @ h')"
    then show "subtle_sign P (encode (key_seed d)) (encode (toString t @ deviceId @ h))
        \<noteq> subtle_sign P (encode (key_seed d)) (encode (toString t @ deviceId @ h'))"
      using ns by (auto simp: no_collision_def)
  qed
  from ok tam show ?thesis by blast
qed

lemma test_lunch_digest:
  \<open>subtle_digest test_platform (encode (js ''{"text":"lunch 12"}'')) = Some 2969619722820262303071337447530331447840475951\<close>
  by (simp add: test_platform_def js_def isHigh_def isLow_def utf8_def fingerprint_def)

lemma test_lunch_hash:
  \<open>hashString test_platform (js ''{"text":"lunch 12"}'') =
    Inr (js ''00000000000000000000000000852990054a3f24a002a52c75b2a13370fc0b2f'')\<close>
  by code_simp

lemma test_dinner_digest:
  \<open>subtle_digest test_platform (encode (js ''{"text":"lunch 13"}'')) = Some 2969619722820262303071337447530331447840542000\<close>
  by (simp add: test_platform_def js_def isHigh_def isLow_def utf8_def fingerprint_def)

lemma test_dinner_hash:
  \<open>hashString test_platform (js ''{"text":"lunch 13"}'') =
    Inr (js ''00000000000000000000000000852990054a3f24a002a52c75b2a13370fd0d30'')\<close>
  by code_simp

lemma test_lunch_sign:
  "subtle_sign test_platform (encode (key_seed test_device))
     (encode (js ''1700000000000'' @ js ''dev-1'' @
        js ''00000000000000000000000000852990054a3f24a002a52c75b2a13370fc0b2f'')) =
   Some 71193584802816171671432985059127406965844553988974469136933883525425865406629"
  by (simp add: test_platform_def test_device_def js_def isHigh_def isLow_def utf8_def fingerprint_def)

lemma test_lunch_b64:
  "base64 (map uint (Uint8Array 71193584802816171671432985059127406965844553988974469136933883525425865406629))
    = js ''nWYkGmai32isQsAN9VearWhbeyiFWzbg3Sm8jJAvuKU=''"
  by code_simp

lemma test_lunch_mac:
  "generateHMAC test_platform (key_seed test_device)
     (js ''1700000000000'' @ js ''dev-1'' @ js ''00000000000000000000000000852990054a3f24a002a52c75b2a13370fc0b2f'')
   = Inr (js ''nWYkGmai32isQsAN9VearWhbeyiFWzbg3Sm8jJAvuKU='')"
  using generateHMAC_Some [OF test_lunch_sign] test_lunch_b64 by simp

lemma test_dinner_sign:
  "subtle_sign test_platform (encode (key_seed test_device))
     (encode (js ''1700000000000'' @ js ''dev-1'' @
        js ''00000000000000000000000000852990054a3f24a002a52c75b2a13370fd0d30'')) =
   Some 71193584802816171671432985059127406965844553988974469136933883525430228009331"
  by (simp add: test_platform_def test_device_def js_def isHigh_def isLow_def utf8_def fingerprint_def)

lemma test_dinner_b64:
  "base64 (map uint (Uint8Array 71193584802816171671432985059127406965844553988974469136933883525430228009331))
    = js ''nWYkGmai32isQsAN9VearWhbeyiFWzbg3Sm8jZQ3wXM=''"
  by code_simp

lemma test_dinner_mac:
  "generateHMAC test_platform (key_seed test_device)
     (js ''1700000000000'' @ js ''dev-1'' @ js ''00000000000000000000000000852990054a3f24a002a52c75b2a13370fd0d30'')
   = Inr (js ''nWYkGmai32isQsAN9VearWhbeyiFWzbg3Sm8jZQ3wXM='')"
  using generateHMAC_Some [OF test_dinner_sign] test_dinner_b64 by simp

lemma test_timestamp_string: "toString 1700000000000 = js ''1700000000000''"
  by code_simp

lemma test_bodies_differ:
  \<open>encode (js ''{"text":"lunch 13"}'') \<noteq> encode (js ''{"text":"lunch 12"}'')\<close>
  by (simp add: js_def isHigh_def isLow_def utf8_def)

theorem verifySignature_round_trip_witness:
  \<open>verifySignature test_platform test_env 1700000000000 (js ''dev-1'') (js ''1700000000000'')
     (js ''nWYkGmai32isQsAN9VearWhbeyiFWzbg3Sm8jJAvuKU='') (js ''{"text":"lunch 12"}'') = Inr True
   \<and> verifySignature test_platform test_env 1700000000299 (js ''dev-1'') (js ''1700000000000'')
     (js ''nWYkGmai32isQsAN9VearWhbeyiFWzbg3Sm8jJAvuKU='') (js ''{"text":"lunch 13"}'') = Inr False\<close>
proof -
  have w1: "\<bar>1700000000000 - 1700000000000\<bar> \<le> (5::int) * 60 * 1000" by simp
  have w2: "\<bar>1700000000299 - 1700000000000\<bar> \<le> (5::int) * 60 * 1000" by simp
  have nd: \<open>no_collision (subtle_digest test_platform) (encode (js ''{"text":"lunch 12"}''))
      (encode (js ''{"text":"lunch 13"}''))\<close>
    by (simp add: no_collision_def test_lunch_digest test_dinner_digest)
  have ns: \<open>\<forall>h'. hashString test_platform (js ''{"text":"lunch 13"}'') = Inr h' \<longrightarrow>
      no_collision (subtle_sign test_platform (encode (key_seed test_device)))
        (encode (toString 1700000000000 @ js ''dev-1'' @ js ''00000000000000000000000000852990054a3f24a002a52c75b2a13370fc0b2f''))
        (encode (toString 1700000000000 @ js ''dev-1'' @ h'))\<close>
    by (simp add: no_collision_def test_dinner_hash test_timestamp_string
          test_lunch_sign test_dinner_sign)
  have mac: "generateHMAC test_platform (key_seed test_device)
      (toString 1700000000000 @ js ''dev-1'' @ js ''00000000000000000000000000852990054a3f24a002a52c75b2a13370fc0b2f'')
      = Inr (js ''nWYkGmai32isQsAN9VearWhbeyiFWzbg3Sm8jJAvuKU='')"
    by (simp only: test_timestamp_string test_lunch_mac)
  show ?thesis
    using verifySignature_round_trip [OF test_registered test_validity w1 test_lunch_hash mac]
      verifySignature_round_trip [OF test_registered test_validity w2 test_lunch_hash mac]
      test_bodies_differ nd ns
    by (simp add: test_timestamp_string)
qed

subsection \<open>No response but the registration depends on a stored secret\<close>

lemma forget_key_seeds_simps [simp]:
  "MASTER_KEY_SEED (forget_key_seeds E) = MASTER_KEY_SEED E"
  "JWT_SECRET (forget_key_seeds E) = JWT_SECRET E"
  "ENVIRONMENT (forget_key_seeds E) = ENVIRONMENT E"
  "API_VERSION (forget_key_seeds E) = API_VERSION E"
  "RATE_LIMIT_PER_MINUTE (forget_key_seeds E) = RATE_LIMIT_PER_MINUTE E"
  "SIGNATURE_VALIDITY_MINUTES (forget_key_seeds E) = SIGNATURE_VALIDITY_MINUTES E"
  "RATE_LIMIT (forget_key_seeds E) = RATE_LIMIT E"
  "online (CACHE (forget_key_seeds E)) = online (CACHE E)"
  "entries (CACHE (forget_key_seeds E)) k
     = map_option (\<lambda>(d, ttl). (d\<lparr>key_seed := []\<rparr>, ttl)) (entries (CACHE E) k)"
  by (simp_all add: forget_key_seeds_def)










lemma storeDeviceInfo_fst:
  "fst (storeDeviceInfo E d) = (if online (CACHE E) then Inr () else Inl (PlatformError ''KV PUT failed''))"
  by (simp add: storeDeviceInfo_def kv_put_def)















subsection \<open>Verification of issued tokens\<close>

lemma b64char_no_dot: "0 \<le> n \<Longrightarrow> n < 64 \<Longrightarrow> b64char n \<noteq> 0x2E"
proof
  assume n: "0 \<le> n" "n < 64" and eq: "b64char n = 0x2E"
  then have u: "uint (b64char n) = 0x2E" by simp
  show False
  proof (cases "n < 26")
    case True
    then have "uint (b64char n) = 0x41 + n"
      using n by (simp add: b64char_def uint_of_int_small del: of_int_add)
    with u n show False by simp
  next
    case False
    show False
    proof (cases "n < 52")
      case True
      then have "uint (b64char n) = 0x61 + (n - 26)"
        using n False by (simp add: b64char_def uint_of_int_small del: of_int_add of_int_diff)
      with u False show False by simp
    next
      case f2: False
      show False
      proof (cases "n < 62")
        case True
        then have "uint (b64char n) = 0x30 + (n - 52)"
          using n False f2 by (simp add: b64char_def uint_of_int_small del: of_int_add of_int_diff)
        with u f2 True show False by simp
      next
        case f3: False
        then show False using eq False f2 by (simp add: b64char_def split: if_splits)
      qed
    qed
  qed
qed

lemma base64_no_dot:
  "\<forall>x\<in>set xs. 0 \<le> x \<and> x < 256 \<Longrightarrow> 0x2E \<notin> set (base64 xs)"
proof (induction xs rule: base64.induct)
  case 1
  then show ?case by simp
next
  case (2 a)
  then have a: "0 \<le> a" "a < 256" by simp_all
  note sa = sextet_bounds [OF a]
  have "b64char (a div 4) \<noteq> 0x2E" by (rule b64char_no_dot) (use sa in linarith)+
  moreover have "b64char (a mod 4 * 16) \<noteq> 0x2E" by (rule b64char_no_dot) (use sa in linarith)+
  ultimately show ?case by (simp add: eq_commute [of "0x2E"])
next
  case (3 a b)
  then have a: "0 \<le> a" "a < 256" and b: "0 \<le> b" "b < 256" by simp_all
  note sa = sextet_bounds [OF a] and sb = sextet_bounds [OF b]
  have "b64char (a div 4) \<noteq> 0x2E" by (rule b64char_no_dot) (use sa in linarith)+
  moreover have "b64char (a mod 4 * 16 + b div 16) \<noteq> 0x2E"
    by (rule b64char_no_dot) (use sa sb in linarith)+
  moreover have "b64char (b mod 16 * 4) \<noteq> 0x2E" by (rule b64char_no_dot) (use sb in linarith)+
  ultimately show ?case by (simp add: eq_commute [of "0x2E"])
next
  case (4 a b c rest)
  then have a: "0 \<le> a" "a < 256" and b: "0 \<le> b" "b < 256" and c: "0 \<le> c" "c < 256"
    by simp_all
  note sa = sextet_bounds [OF a] and sb = sextet_bounds [OF b] and sc = sextet_bounds [OF c]
  have ih: "0x2E \<notin> set (base64 rest)" using 4 by simp
  have "b64char (a div 4) \<noteq> 0x2E" by (rule b64char_no_dot) (use sa in linarith)+
  moreover have "b64char (a mod 4 * 16 + b div 16) \<noteq> 0x2E"
    by (rule b64char_no_dot) (use sa sb in linarith)+
  moreover have "b64char (b mod 16 * 4 + c div 64) \<noteq> 0x2E"
    by (rule b64char_no_dot) (use sb sc in linarith)+
  moreover have "b64char (c mod 64) \<noteq> 0x2E" by (rule b64char_no_dot) (use sc in linarith)+
  ultimately show ?case using ih by (simp add: eq_commute [of "0x2E"])
qed

lemma base64_uint_no_dot: "0x2E \<notin> set (base64 (map uint (bs :: 'a::len word list)))"
  if "LENGTH('a) \<le> 8"
proof (rule base64_no_dot, rule ballI)
  fix x assume "x \<in> set (map uint bs)"
  then obtain b :: "'a word" where b: "x = uint b" by auto
  have "uint b < 2 ^ LENGTH('a)" by (rule uint_lt2p)
  also have "\<dots> \<le> (2::int) ^ 8" using that by (intro power_increasing) simp_all
  finally show "0 \<le> x \<and> x < 256" by (simp add: b)
qed

lemma base64_latin1_no_dot:
  assumes "latin1 s"
  shows "0x2E \<notin> set (base64 (map uint s))"
proof (rule base64_no_dot, rule ballI)
  fix x assume "x \<in> set (map uint s)"
  then obtain c where c: "c \<in> set s" "x = uint c" by auto
  then have "c \<le> 0xFF" using assms by (simp add: latin1_def)
  then have "uint c \<le> 255" by (simp add: word_le_def)
  then show "0 \<le> x \<and> x < 256" by (simp add: c)
qed

lemma split_token_issued:
  assumes "0x2E \<notin> set p" and "0x2E \<notin> set s"
  shows "split_token (p @ js ''.'' @ s) = Some (p, s)"
proof -
  have d: "js ''.'' = [0x2E]" by (simp add: js_def)
  have t: "takeWhile (\<lambda>c. c \<noteq> 0x2E) (p @ 0x2E # s) = p"
    using assms(1) by (subst takeWhile_append2) auto
  have r: "dropWhile (\<lambda>c. c \<noteq> 0x2E) (p @ 0x2E # s) = 0x2E # s"
    using assms(1) by (subst dropWhile_append2) auto
  show ?thesis using assms(2) by (simp add: split_token_def d t r Let_def)
qed

end
